theory Spec2Isabelle
  imports Main "HOL-Library.Multiset"
begin

section \<open>Python values, exceptions and the world\<close>

text \<open>
  The two functions of \<^verbatim>\<open>keygen.py\<close> take loosely typed arguments and check them with
  \<^verbatim>\<open>isinstance\<close> at run time, so an argument is a Python value. A list is a mutable
  object: the value is a reference, and the elements live in the store under that
  address. Strings are immutable, so a string value carries its characters.
\<close>

type_synonym addr = nat

datatype pyval =
    PyNone
  | PyBool bool
  | PyInt int
  | PyStr (the_str: string)
  | PyTuple "pyval list"
  | PyList (the_addr: addr)

datatype exn =
    TypeError string
  | ValueError string
  | IndexError string
  | EOFError

text \<open>
  The world holds the store of list objects (\<open>cells\<close>, with \<open>nxt\<close> the next unused
  address), the lines still to be read from the console, what has been written to it
  (one entry per \<^verbatim>\<open>print\<close> call or \<^verbatim>\<open>input\<close> prompt), and how many numbers
  the process-wide pseudorandom generator has handed out.
\<close>

record world =
  cells :: "addr \<Rightarrow> pyval list"
  nxt :: addr
  stdin :: "string list"
  stdout :: "string list"
  rng_pos :: nat

subsection \<open>Builtins\<close>

definition is_bool :: "pyval \<Rightarrow> bool" where
  "is_bool v = (case v of PyBool _ \<Rightarrow> True | _ \<Rightarrow> False)"

text \<open>\<^verbatim>\<open>isinstance(v, int)\<close>: \<^verbatim>\<open>bool\<close> is a subclass of \<^verbatim>\<open>int\<close>.\<close>

definition is_int :: "pyval \<Rightarrow> bool" where
  "is_int v = (case v of PyInt _ \<Rightarrow> True | PyBool _ \<Rightarrow> True | _ \<Rightarrow> False)"

definition is_list :: "pyval \<Rightarrow> bool" where
  "is_list v = (case v of PyList _ \<Rightarrow> True | _ \<Rightarrow> False)"

fun int_val :: "pyval \<Rightarrow> int" where
  "int_val (PyInt n) = n"
| "int_val (PyBool b) = (if b then 1 else 0)"

fun type_name :: "pyval \<Rightarrow> string" where
  "type_name PyNone = ''NoneType''"
| "type_name (PyBool _) = ''bool''"
| "type_name (PyInt _) = ''int''"
| "type_name (PyStr _) = ''str''"
| "type_name (PyTuple _) = ''tuple''"
| "type_name (PyList _) = ''list''"

text \<open>\<^verbatim>\<open>chr(39)\<close> is the apostrophe.\<close>

definition quote :: "string \<Rightarrow> string" where
  "quote s = [CHR 0x27] @ s @ [CHR 0x27]"

text \<open>\<^verbatim>\<open>sep.join(xs)\<close>\<close>

fun join :: "string \<Rightarrow> string list \<Rightarrow> string" where
  "join sep [] = []"
| "join sep [x] = x"
| "join sep (x # y # ys) = x @ sep @ join sep (y # ys)"

text \<open>
  Iterating a value: a list yields the elements stored under its address, a tuple its
  components, a string its characters as one-character strings; \<^verbatim>\<open>None\<close>, booleans and
  integers are not iterable.
\<close>

definition py_iter :: "world \<Rightarrow> pyval \<Rightarrow> exn + pyval list" where
  "py_iter w v =
     (case v of
        PyList a \<Rightarrow> Inr (cells w a)
      | PyTuple vs \<Rightarrow> Inr vs
      | PyStr s \<Rightarrow> Inr (map (\<lambda>c. PyStr [c]) s)
      | _ \<Rightarrow> Inl (TypeError (quote (type_name v) @ '' object is not iterable'')))"

text \<open>\<^verbatim>\<open>isinstance(string, str) and len(string) == 1\<close>\<close>

definition single_char :: "pyval \<Rightarrow> bool" where
  "single_char v = (case v of PyStr s \<Rightarrow> length s = 1 | _ \<Rightarrow> False)"

text \<open>
  A Python \<^verbatim>\<open>set\<close> is kept as a list without duplicates. The order in which
  \<^verbatim>\<open>list(s)\<close> enumerates a set is not fixed by the language: it follows the hashes
  and the history of the set object, so two sets with the same elements may come out in
  different orders. Each \<^verbatim>\<open>list(s)\<close> of the source is therefore \<open>order k s\<close>, with
  \<open>k\<close> the line of the source it stands on, for a parameter \<open>order\<close> of which the
  theorems assume only that every \<open>order k\<close> permutes its argument.
\<close>

definition py_set :: "pyval list \<Rightarrow> pyval list" where
  "py_set xs = remdups xs"

definition set_union :: "pyval list \<Rightarrow> pyval list \<Rightarrow> pyval list" where
  "set_union a b = remdups (a @ b)"

definition set_diff :: "pyval list \<Rightarrow> pyval list \<Rightarrow> pyval list" where
  "set_diff a b = filter (\<lambda>x. x \<notin> set b) a"

definition permutes :: "(nat \<Rightarrow> pyval list \<Rightarrow> pyval list) \<Rightarrow> bool" where
  "permutes order = (\<forall>k xs. mset (order k xs) = mset xs)"

subsection \<open>Error messages\<close>

definition listFails_msg :: "string list \<Rightarrow> string" where
  "listFails_msg listFails =
     ''Input argument(s): '' @ join '', '' (map quote listFails)
       @ '' have incorrect type(s). Must be '' @ quote ''list'' @ ''.''"

definition characterFails_msg :: "string list \<Rightarrow> string" where
  "characterFails_msg characterFails =
     ''Input argument(s): '' @ join '', '' (map quote characterFails)
       @ '' contain strings greater than length 1. Must contain only single-character strings.''"

definition printToConsole_msg :: string where
  "printToConsole_msg =
     ''Input argument '' @ quote ''printToConsole'' @ '' has incorrect type. Must be ''
       @ quote ''bool'' @ ''.''"

definition blacklist_type_msg :: string where
  "blacklist_type_msg =
     ''Input argument '' @ quote ''blacklist'' @ '' has incorrect type. Must be ''
       @ quote ''list'' @ ''.''"

definition blacklist_none_msg :: string where
  "blacklist_none_msg =
     ''Input argument '' @ quote ''blacklist'' @ '' cannot be None if the argument ''
       @ quote ''printToConsole'' @ '' is False. Must be '' @ quote ''list'' @ '' or ''
       @ quote ''printToConsole'' @ '' must be True.''"

definition keyLength_type_msg :: string where
  "keyLength_type_msg =
     ''Input argument '' @ quote ''keyLength'' @ '' has incorrect type. Must be ''
       @ quote ''int'' @ ''.''"

definition keyLength_none_msg :: string where
  "keyLength_none_msg =
     ''Input argument '' @ quote ''keyLength'' @ '' cannot be None if the argument ''
       @ quote ''printToConsole'' @ '' is False. Must be '' @ quote ''int'' @ '' or ''
       @ quote ''printToConsole'' @ '' must be True.''"

definition keyLength_value_msg :: string where
  "keyLength_value_msg =
     ''Input argument '' @ quote ''keyLength''
       @ '' cannot be an integer less than 1 if the argument '' @ quote ''printToConsole''
       @ '' is False. Must be an integer greater than 0 or '' @ quote ''printToConsole''
       @ '' must be True.''"

definition all_empty_msg :: string where
  "all_empty_msg =
     ''All character sets are empty. At least one character set must contain characters.''"

section \<open>blacklistCharacters\<close>

text \<open>
  Lines 65 to 70: the loop over \<^verbatim>\<open>listArgumentNames.items()\<close>, in insertion order.
  \<^verbatim>\<open>all(... for string in listArgument)\<close> iterates the argument, and raises at once
  when it is not iterable; \<^verbatim>\<open>None\<close> is skipped by the guard before it.
\<close>

fun bc_check ::
  "world \<Rightarrow> (string \<times> pyval) list \<Rightarrow> string list \<times> string list
     \<Rightarrow> exn + (string list \<times> string list)" where
  "bc_check w [] (listFails, characterFails) = Inr (listFails, characterFails)"
| "bc_check w ((listArgumentName, listArgument) # rest) (listFails, characterFails) =
     (let listFails' =
            (if listArgumentName \<noteq> ''blacklist'' \<and> \<not> is_list listArgument
             then listFails @ [listArgumentName] else listFails)
      in if listArgument \<noteq> PyNone
         then (case py_iter w listArgument of
                 Inl e \<Rightarrow> Inl e
               | Inr strings \<Rightarrow>
                   bc_check w rest
                     (listFails',
                      if \<not> list_all single_char strings
                      then characterFails @ [listArgumentName] else characterFails))
         else bc_check w rest (listFails', characterFails))"

definition bc_prompt_text :: string where
  "bc_prompt_text =
     ''Enter all English ASCII letters, punctuation (bar whitespace), and/or digits prohibited from being in your password:''
       @ [CHR 0x0A]"

definition must_allow_text :: string where
  "must_allow_text = ''You must allow at least one character to be used to generate a key.''"

text \<open>
  Lines 82 to 87: ask for a blacklist until it leaves a character to draw from.
  \<^verbatim>\<open>input\<close> writes its prompt, then reads a line, and raises \<^verbatim>\<open>EOFError\<close> when
  there is none.
\<close>

fun bc_prompt ::
  "pyval list \<Rightarrow> pyval list \<Rightarrow> pyval list \<Rightarrow> string list \<Rightarrow> string list
     \<Rightarrow> (exn + pyval list) \<times> string list \<times> string list" where
  "bc_prompt numbers letters symbols [] out = (Inl EOFError, [], out @ [bc_prompt_text])"
| "bc_prompt numbers letters symbols (line # rest) out =
     (let blacklist = map (\<lambda>c. PyStr [c]) line
      in if length (set_diff (set_union (set_union (py_set numbers) (py_set letters))
                                (py_set symbols))
                      (py_set blacklist)) = 0
         then bc_prompt numbers letters symbols rest (out @ [bc_prompt_text, must_allow_text])
         else (Inr blacklist, rest, out @ [bc_prompt_text]))"

definition not_blacklisted_text :: "string \<Rightarrow> string" where
  "not_blacklisted_text s =
     ''The characters:'' @ [CHR 0x0A, CHR 0x09] @ s @ [CHR 0x0A]
       @ ''...were not blacklisted because they were not going to be used anyway.''"

text \<open>
  Lines 92 to 118. The four sets are computed from the lists as they are before any
  write; then the four slice assignments overwrite the elements stored under the four
  addresses, in this order, so that a later write wins where arguments are one object.
\<close>

definition bc_filter ::
  "(nat \<Rightarrow> pyval list \<Rightarrow> pyval list) \<Rightarrow> world \<Rightarrow> addr \<Rightarrow> addr \<Rightarrow> addr \<Rightarrow> addr \<Rightarrow> bool
     \<Rightarrow> (exn + pyval) \<times> world" where
  "bc_filter order w numbers letters symbols blacklist printToConsole =
     (let numbersSet = py_set (cells w numbers);
          lettersSet = py_set (cells w letters);
          symbolsSet = py_set (cells w symbols);
          blacklistSet = py_set (cells w blacklist);
          numbersSet' = set_diff numbersSet blacklistSet;
          lettersSet' = set_diff lettersSet blacklistSet;
          symbolsSet' = set_diff symbolsSet blacklistSet;
          blacklistSet' =
            set_diff blacklistSet
              (set_union (set_union (py_set (cells w numbers)) (py_set (cells w letters)))
                 (py_set (cells w symbols)));
          w1 = w\<lparr>cells := (cells w)(numbers := order 107 numbersSet')\<rparr>;
          w2 = w1\<lparr>cells := (cells w1)(letters := order 108 lettersSet')\<rparr>;
          w3 = w2\<lparr>cells := (cells w2)(symbols := order 109 symbolsSet')\<rparr>;
          w4 = w3\<lparr>cells := (cells w3)(blacklist := order 110 blacklistSet')\<rparr>;
          w5 = (if length (cells w4 blacklist) > 0 \<and> printToConsole
                then w4\<lparr>stdout := stdout w4
                        @ [not_blacklisted_text (concat (map the_str (cells w4 blacklist)))]\<rparr>
                else w4)
      in (Inr (PyList blacklist), w5))"

text \<open>
  The whole function. An exception leaves the world as it is at the raise. In the
  interactive branch \<^verbatim>\<open>list(input(...))\<close> makes a new list object, stored under the
  next unused address. Past the checks the three pools and the blacklist are lists, so
  \<open>the_addr\<close> is applied to \<open>PyList\<close> values only.
\<close>

definition blacklistCharacters ::
  "(nat \<Rightarrow> pyval list \<Rightarrow> pyval list) \<Rightarrow> world \<Rightarrow> pyval \<Rightarrow> pyval \<Rightarrow> pyval \<Rightarrow> pyval \<Rightarrow> pyval
     \<Rightarrow> (exn + pyval) \<times> world" where
  "blacklistCharacters order w numbers letters symbols blacklist printToConsole =
     (if \<not> is_bool printToConsole then (Inl (TypeError printToConsole_msg), w)
      else if blacklist \<noteq> PyNone \<and> \<not> is_list blacklist
      then (Inl (TypeError blacklist_type_msg), w)
      else
        (case bc_check w
                [(''numbers'', numbers), (''letters'', letters), (''symbols'', symbols),
                 (''blacklist'', blacklist)] ([], []) of
           Inl e \<Rightarrow> (Inl e, w)
         | Inr (listFails, characterFails) \<Rightarrow>
             if listFails \<noteq> [] then (Inl (TypeError (listFails_msg listFails)), w)
             else if characterFails \<noteq> []
             then (Inl (ValueError (characterFails_msg characterFails)), w)
             else if printToConsole = PyBool True \<and> \<not> is_list blacklist
             then (case bc_prompt (cells w (the_addr numbers)) (cells w (the_addr letters))
                          (cells w (the_addr symbols)) (stdin w) (stdout w) of
                     (Inl e, inp, out) \<Rightarrow> (Inl e, w\<lparr>stdin := inp, stdout := out\<rparr>)
                   | (Inr chars, inp, out) \<Rightarrow>
                       bc_filter order
                         (w\<lparr>cells := (cells w)(nxt w := chars), nxt := Suc (nxt w),
                            stdin := inp, stdout := out\<rparr>)
                         (the_addr numbers) (the_addr letters) (the_addr symbols) (nxt w) True)
             else if blacklist = PyNone then (Inl (TypeError blacklist_none_msg), w)
             else bc_filter order w (the_addr numbers) (the_addr letters) (the_addr symbols)
                    (the_addr blacklist) (printToConsole = PyBool True)))"

section \<open>keygen\<close>

text \<open>
  Lines 166 to 170: the same loop without the two guards: every argument is iterated,
  \<^verbatim>\<open>None\<close> included.
\<close>

fun kg_check ::
  "world \<Rightarrow> (string \<times> pyval) list \<Rightarrow> string list \<times> string list
     \<Rightarrow> exn + (string list \<times> string list)" where
  "kg_check w [] (listFails, characterFails) = Inr (listFails, characterFails)"
| "kg_check w ((listArgumentName, listArgument) # rest) (listFails, characterFails) =
     (let listFails' =
            (if \<not> is_list listArgument then listFails @ [listArgumentName] else listFails)
      in case py_iter w listArgument of
           Inl e \<Rightarrow> Inl e
         | Inr strings \<Rightarrow>
             kg_check w rest
               (listFails',
                if \<not> list_all single_char strings
                then characterFails @ [listArgumentName] else characterFails))"

definition kg_prompt_text :: string where
  "kg_prompt_text = ''Enter the desired length of your password (integer > 0):'' @ [CHR 0x0A]"

definition invalid_input_text :: string where
  "invalid_input_text = ''Invalid input. Please enter a positive integer.''"

text \<open>
  Lines 182 to 192: ask for the length until it is positive. The builtin \<^verbatim>\<open>int\<close> on
  a string is the parameter \<open>py_int\<close>, with \<open>None\<close> for its \<^verbatim>\<open>ValueError\<close>, which the
  loop catches; the \<^verbatim>\<open>EOFError\<close> of \<^verbatim>\<open>input\<close> is not caught.
\<close>

fun kg_prompt ::
  "(string \<Rightarrow> int option) \<Rightarrow> pyval \<Rightarrow> string list \<Rightarrow> string list
     \<Rightarrow> (exn + pyval) \<times> string list \<times> string list" where
  "kg_prompt py_int keyLength [] out =
     (if keyLength \<noteq> PyNone \<and> int_val keyLength > 0 then (Inr keyLength, [], out)
      else (Inl EOFError, [], out @ [kg_prompt_text]))"
| "kg_prompt py_int keyLength (line # rest) out =
     (if keyLength \<noteq> PyNone \<and> int_val keyLength > 0 then (Inr keyLength, line # rest, out)
      else (case py_int line of
              None \<Rightarrow>
                kg_prompt py_int keyLength rest (out @ [kg_prompt_text, invalid_input_text])
            | Some n \<Rightarrow>
                if n > 0 then (Inr (PyInt n), rest, out @ [kg_prompt_text])
                else kg_prompt py_int (PyInt n) rest
                       (out @ [kg_prompt_text, invalid_input_text])))"

text \<open>
  Lines 208 to 211: the loop runs over a copy of \<open>characterSets\<close> and removes from
  \<open>characterSets\<close> itself; \<^verbatim>\<open>list.remove\<close> deletes the first element equal to its
  argument.
\<close>

fun remove_empty :: "pyval list list \<Rightarrow> pyval list list \<Rightarrow> pyval list list" where
  "remove_empty [] characterSets = characterSets"
| "remove_empty (characterSet # rest) characterSets =
     remove_empty rest
       (if length characterSet = 0 then remove1 characterSet characterSets
        else characterSets)"

text \<open>
  \<^verbatim>\<open>rng.choice(seq)\<close> is \<^verbatim>\<open>seq[randbelow(len(seq))]\<close>, and raises on an empty
  sequence. The generator is a tape of natural numbers, fixed but arbitrary, read at the
  position the world holds; the draw below \<open>k\<close> is the number read, modulo \<open>k\<close>, so
  every sequence of choices the generator can make is the behaviour under some tape.
\<close>

definition randbelow :: "(nat \<Rightarrow> nat) \<Rightarrow> nat \<Rightarrow> nat \<Rightarrow> nat" where
  "randbelow tape pos k = tape pos mod k"

definition choice :: "(nat \<Rightarrow> nat) \<Rightarrow> nat \<Rightarrow> 'a list \<Rightarrow> exn + 'a" where
  "choice tape pos seq =
     (if seq = [] then Inl (IndexError ''Cannot choose from an empty sequence'')
      else Inr (seq ! randbelow tape pos (length seq)))"

text \<open>
  Lines 214 and 215: \<open>rounds\<close> iterations, each drawing a character set, then a character of
  it, and appending the character to \<open>key\<close>.
\<close>

fun generate ::
  "(nat \<Rightarrow> nat) \<Rightarrow> pyval list list \<Rightarrow> nat \<Rightarrow> nat \<Rightarrow> pyval list
     \<Rightarrow> (exn + pyval list) \<times> nat" where
  "generate tape characterSets 0 pos key = (Inr key, pos)"
| "generate tape characterSets (Suc rounds) pos key =
     (case choice tape pos characterSets of
        Inl e \<Rightarrow> (Inl e, pos)
      | Inr characterSet \<Rightarrow>
          (case choice tape (Suc pos) characterSet of
             Inl e \<Rightarrow> (Inl e, Suc pos)
           | Inr keyCharacter \<Rightarrow>
               generate tape characterSets rounds (Suc (Suc pos)) (key @ [keyCharacter])))"

definition password_text :: "string \<Rightarrow> string" where
  "password_text s = ''Your password is:'' @ [CHR 0x0A] @ s @ [CHR 0x0A]"

text \<open>
  Lines 200 to 222, with the three lists read from the store, the length settled and
  \<open>printToConsole\<close> a boolean. \<^verbatim>\<open>range(keyLength)\<close> runs \<open>nat (int_val keyLength)\<close>
  times. The elements are one-character strings past the checks, so \<^verbatim>\<open>''.join(key)\<close>
  applies \<open>the_str\<close> to \<open>PyStr\<close> values only.
\<close>

definition kg_sample ::
  "(nat \<Rightarrow> nat) \<Rightarrow> world \<Rightarrow> pyval list \<Rightarrow> pyval list \<Rightarrow> pyval list \<Rightarrow> pyval \<Rightarrow> bool
     \<Rightarrow> (exn + string \<times> pyval) \<times> world" where
  "kg_sample tape w numbers letters symbols keyLength printToConsole =
     (if numbers = [] \<and> letters = [] \<and> symbols = []
      then (Inl (ValueError all_empty_msg), w)
      else
        (let characterSets =
               remove_empty [numbers, letters, symbols] [numbers, letters, symbols]
         in case generate tape characterSets (nat (int_val keyLength)) (rng_pos w) [] of
              (Inl e, pos) \<Rightarrow> (Inl e, w\<lparr>rng_pos := pos\<rparr>)
            | (Inr key, pos) \<Rightarrow>
                (let w1 = w\<lparr>rng_pos := pos\<rparr>;
                     w2 = (if printToConsole
                           then w1\<lparr>stdout := stdout w1
                                   @ [password_text (concat (map the_str key))]\<rparr>
                           else w1)
                 in (Inr (concat (map the_str key), keyLength), w2))))"

text \<open>Lines 181 to 198: settling the length, from the console or from the argument.\<close>

definition kg_length ::
  "(string \<Rightarrow> int option) \<Rightarrow> world \<Rightarrow> pyval \<Rightarrow> bool \<Rightarrow> (exn + pyval) \<times> world" where
  "kg_length py_int w keyLength printToConsole =
     (if printToConsole
      then (case kg_prompt py_int keyLength (stdin w) (stdout w) of
              (r, inp, out) \<Rightarrow> (r, w\<lparr>stdin := inp, stdout := out\<rparr>))
      else if keyLength = PyNone then (Inl (TypeError keyLength_none_msg), w)
      else if int_val keyLength \<le> 0 then (Inl (ValueError keyLength_value_msg), w)
      else (Inr keyLength, w))"

text \<open>
  The whole function. Past the checks the three pools are lists, so \<open>the_addr\<close> is
  applied to \<open>PyList\<close> values only. The function writes to no list.
\<close>

definition keygen ::
  "(string \<Rightarrow> int option) \<Rightarrow> (nat \<Rightarrow> nat) \<Rightarrow> world
     \<Rightarrow> pyval \<Rightarrow> pyval \<Rightarrow> pyval \<Rightarrow> pyval \<Rightarrow> pyval
     \<Rightarrow> (exn + string \<times> pyval) \<times> world" where
  "keygen py_int tape w numbers letters symbols keyLength printToConsole =
     (if \<not> is_bool printToConsole then (Inl (TypeError printToConsole_msg), w)
      else if keyLength \<noteq> PyNone \<and> \<not> is_int keyLength
      then (Inl (TypeError keyLength_type_msg), w)
      else
        (case kg_check w
                [(''numbers'', numbers), (''letters'', letters), (''symbols'', symbols)]
                ([], []) of
           Inl e \<Rightarrow> (Inl e, w)
         | Inr (listFails, characterFails) \<Rightarrow>
             if listFails \<noteq> [] then (Inl (TypeError (listFails_msg listFails)), w)
             else if characterFails \<noteq> []
             then (Inl (ValueError (characterFails_msg characterFails)), w)
             else
               (case kg_length py_int w keyLength (printToConsole = PyBool True) of
                  (Inl e, w') \<Rightarrow> (Inl e, w')
                | (Inr keyLength', w') \<Rightarrow>
                    kg_sample tape w' (cells w' (the_addr numbers))
                      (cells w' (the_addr letters)) (cells w' (the_addr symbols))
                      keyLength' (printToConsole = PyBool True))))"

section \<open>Notions the properties are stated with\<close>

text \<open>A pool that passes the element check: every element is a one-character string.\<close>

definition pool_ok :: "world \<Rightarrow> addr \<Rightarrow> bool" where
  "pool_ok w a = list_all single_char (cells w a)"

text \<open>
  The values \<open>py_iter\<close> accepts, and what it yields for them (nothing for the others).
\<close>

definition iterable :: "pyval \<Rightarrow> bool" where
  "iterable v = (case v of PyList _ \<Rightarrow> True | PyTuple _ \<Rightarrow> True | PyStr _ \<Rightarrow> True | _ \<Rightarrow> False)"

definition elements :: "world \<Rightarrow> pyval \<Rightarrow> pyval list" where
  "elements w v = (case py_iter w v of Inr xs \<Rightarrow> xs | Inl _ \<Rightarrow> [])"

text \<open>
  The list object that a call of \<open>blacklistCharacters\<close> filters with and returns, and
  its elements before the filtering: the list supplied, or else the new list that
  \<^verbatim>\<open>list(input(...))\<close> makes of the line accepted at the console.
\<close>

definition blacklist_addr :: "world \<Rightarrow> pyval \<Rightarrow> addr" where
  "blacklist_addr w blacklist = (case blacklist of PyList b \<Rightarrow> b | _ \<Rightarrow> nxt w)"

definition blacklist_used :: "world \<Rightarrow> addr \<Rightarrow> addr \<Rightarrow> addr \<Rightarrow> pyval \<Rightarrow> pyval list" where
  "blacklist_used w n l s blacklist =
     (case blacklist of
        PyList b \<Rightarrow> cells w b
      | _ \<Rightarrow> (case fst (bc_prompt (cells w n) (cells w l) (cells w s) (stdin w) (stdout w)) of
                Inr chars \<Rightarrow> chars
              | Inl e \<Rightarrow> []))"

text \<open>
  The two kinds of violation of claim C3, in the claim's words: the names of the
  arguments that are of the wrong container type, and the names of those that hold an
  element which is not a string of length 1. They are compared below with the
  \<open>listFails\<close> and \<open>characterFails\<close> that the loops of the source collect.
\<close>

definition pool_items :: "pyval \<Rightarrow> pyval \<Rightarrow> pyval \<Rightarrow> (string \<times> pyval) list" where
  "pool_items numbers letters symbols =
     [(''numbers'', numbers), (''letters'', letters), (''symbols'', symbols)]"

definition wrong_type_names :: "(string \<times> pyval) list \<Rightarrow> string list" where
  "wrong_type_names items = map fst (filter (\<lambda>(name, v). \<not> is_list v) items)"

definition wrong_element_names :: "world \<Rightarrow> (string \<times> pyval) list \<Rightarrow> string list" where
  "wrong_element_names w items =
     map fst (filter (\<lambda>(name, v). \<not> list_all single_char (elements w v)) items)"

text \<open>
  The non-empty pools in the order of the source, the element that one round of the
  loop of line 215 draws from non-empty character sets when the generator stands at
  \<open>pos\<close>, and the characters of the elements that \<open>rounds\<close> rounds draw.
\<close>

definition nonempty_pools :: "world \<Rightarrow> addr \<Rightarrow> addr \<Rightarrow> addr \<Rightarrow> pyval list list" where
  "nonempty_pools w n l s = filter (\<lambda>p. p \<noteq> []) [cells w n, cells w l, cells w s]"

definition pick :: "(nat \<Rightarrow> nat) \<Rightarrow> pyval list list \<Rightarrow> nat \<Rightarrow> pyval" where
  "pick tape characterSets pos =
     (let characterSet = characterSets ! (tape pos mod length characterSets)
      in characterSet ! (tape (Suc pos) mod length characterSet))"

definition drawn :: "(nat \<Rightarrow> nat) \<Rightarrow> pyval list list \<Rightarrow> nat \<Rightarrow> nat \<Rightarrow> string" where
  "drawn tape characterSets pos rounds =
     map (\<lambda>i. hd (the_str (pick tape characterSets (pos + 2 * i)))) [0..<rounds]"

section \<open>Example worlds\<close>

text \<open>
  Four separate list objects: digits, letters, symbols, and a blacklist holding a digit,
  a letter and a character that is in no pool.
\<close>

definition ex_world :: world where
  "ex_world =
     \<lparr>cells = (\<lambda>_. [])(10 := [PyStr ''0'', PyStr ''1''], 11 := [PyStr ''a'', PyStr ''b''],
                         12 := [PyStr ''!''], 13 := [PyStr ''0'', PyStr ''a'', PyStr ''9'']),
      nxt = 14, stdin = [], stdout = [], rng_pos = 0\<rparr>"

text \<open>
  An enumeration order that differs between the lines: the set of line 108 comes out
  reversed, the others as they were built.
\<close>

definition ex_order :: "nat \<Rightarrow> pyval list \<Rightarrow> pyval list" where
  "ex_order k xs = (if k = 108 then rev xs else xs)"

text \<open>The specification's example: two digits, no letters, no symbols.\<close>

definition ex_digits :: world where
  "ex_digits =
     \<lparr>cells = (\<lambda>_. [])(10 := [PyStr ''0'', PyStr ''1'']),
      nxt = 13, stdin = [], stdout = [], rng_pos = 0\<rparr>"

text \<open>Three empty pools.\<close>

definition ex_empty :: world where
  "ex_empty = \<lparr>cells = (\<lambda>_. []), nxt = 13, stdin = [], stdout = [], rng_pos = 0\<rparr>"

text \<open>
  A user at the console who types a word, then 0, then 3, when asked for the length;
  \<open>ex_py_int\<close> is what the builtin \<^verbatim>\<open>int\<close> makes of these lines.
\<close>

definition ex_console :: world where
  "ex_console =
     \<lparr>cells = (\<lambda>_. [])(10 := [PyStr ''0'', PyStr ''1''], 11 := [PyStr ''a'', PyStr ''b''],
                         12 := [PyStr ''!'']),
      nxt = 13, stdin = [''x'', ''0'', ''3''], stdout = [], rng_pos = 0\<rparr>"

definition ex_py_int :: "string \<Rightarrow> int option" where
  "ex_py_int line = (if line = ''3'' then Some 3 else if line = ''0'' then Some 0 else None)"

text \<open>
  A user at the console who, asked for a blacklist, first types all five characters of
  the pools, and then a digit, a letter and a character that is in no pool.
\<close>

definition ex_prompt :: world where
  "ex_prompt =
     \<lparr>cells = (\<lambda>_. [])(10 := [PyStr ''0'', PyStr ''1''], 11 := [PyStr ''a'', PyStr ''b''],
                         12 := [PyStr ''!'']),
      nxt = 13, stdin = [''01ab!'', ''0a9''], stdout = [], rng_pos = 0\<rparr>"

text \<open>A tape of random numbers: 0, 0, 1, 1, 2, 2, and so on.\<close>

definition ex_tape :: "nat \<Rightarrow> nat" where
  "ex_tape i = i div 2"

text \<open>
  Lists with a wrong element: a two-character string in the letters and in the
  blacklist.
\<close>

definition ex_bad :: world where
  "ex_bad =
     \<lparr>cells = (\<lambda>_. [])(10 := [PyStr ''0'', PyStr ''1''], 11 := [PyStr ''ab''],
                         12 := [PyStr ''!''], 13 := [PyStr ''xy'', PyStr ''0'']),
      nxt = 14, stdin = [], stdout = [], rng_pos = 0\<rparr>"

text \<open>
  A tape that holds \<open>r1\<close> at position 0 and \<open>r2\<close> elsewhere, and the number of the
  pairs of tape numbers, out of \<open>pairs\<close>, for which one round draws \<open>c\<close>.
\<close>

definition two_numbers :: "nat \<Rightarrow> nat \<Rightarrow> nat \<Rightarrow> nat" where
  "two_numbers r1 r2 pos = (if pos = 0 then r1 else r2)"

definition rounds_drawing ::
  "pyval list list \<Rightarrow> pyval \<Rightarrow> (nat \<times> nat) list \<Rightarrow> nat" where
  "rounds_drawing characterSets c pairs =
     length (filter (\<lambda>(r1, r2).
        (case choice (two_numbers r1 r2) 0 characterSets of
           Inl e \<Rightarrow> False
         | Inr characterSet \<Rightarrow> choice (two_numbers r1 r2) 1 characterSet = Inr c)) pairs)"

section \<open>The checking loops\<close>

lemma py_iter_iterable: "iterable v \<Longrightarrow> py_iter w v = Inr (elements w v)"
  by (cases v) (simp_all add: iterable_def elements_def py_iter_def)

lemma py_iter_Inr_iterable: "py_iter w v = Inr xs \<Longrightarrow> iterable v"
  by (cases v) (simp_all add: py_iter_def iterable_def)

lemma elements_None: "elements w PyNone = []"
  by (simp add: elements_def py_iter_def)

lemma elements_PyList: "elements w (PyList a) = cells w a"
  by (simp add: elements_def py_iter_def)

lemma bc_check_closed:
  "\<forall>v \<in> snd ` set items. v = PyNone \<or> iterable v \<Longrightarrow>
   bc_check w items (lf, cf)
     = Inr (lf @ map fst (filter (\<lambda>(name, v). name \<noteq> ''blacklist'' \<and> \<not> is_list v) items),
            cf @ wrong_element_names w items)"
proof (induction items arbitrary: lf cf)
  case Nil
  show ?case by (simp add: wrong_element_names_def)
next
  case (Cons item items)
  obtain name v where item: "item = (name, v)" by (cases item)
  from Cons.prems item have it: "v = PyNone \<or> iterable v"
    and rest: "\<forall>v \<in> snd ` set items. v = PyNone \<or> iterable v"
    by auto
  show ?case
  proof (cases "v = PyNone")
    case True
    then show ?thesis
      using Cons.IH [OF rest]
      by (simp add: item wrong_element_names_def elements_None Let_def)
  next
    case False
    with it have "iterable v" by simp
    then show ?thesis
      using Cons.IH [OF rest] False
      by (simp add: item py_iter_iterable wrong_element_names_def Let_def)
  qed
qed

lemma bc_check_Inr_iterable:
  "bc_check w items acc = Inr r \<Longrightarrow> \<forall>v \<in> snd ` set items. v = PyNone \<or> iterable v"
proof (induction items arbitrary: acc)
  case Nil
  show ?case by simp
next
  case (Cons item items)
  obtain name v where item: "item = (name, v)" by (cases item)
  obtain lf cf where acc: "acc = (lf, cf)" by (cases acc)
  show ?case
  proof (cases "v = PyNone")
    case True
    with Cons.prems obtain acc' where "bc_check w items acc' = Inr r"
      by (simp add: item acc Let_def)
    from Cons.IH [OF this] True show ?thesis by (simp add: item)
  next
    case False
    with Cons.prems obtain xs where it: "py_iter w v = Inr xs"
      by (cases "py_iter w v") (simp_all add: item acc Let_def)
    with Cons.prems False obtain acc' where "bc_check w items acc' = Inr r"
      by (simp add: item acc Let_def)
    from Cons.IH [OF this] py_iter_Inr_iterable [OF it] show ?thesis
      by (simp add: item)
  qed
qed

lemma bc_check_four:
  assumes "blacklist = PyNone \<or> is_list blacklist"
    and "\<forall>v \<in> {numbers, letters, symbols}. v = PyNone \<or> iterable v"
  shows "bc_check w (pool_items numbers letters symbols @ [(''blacklist'', blacklist)]) ([], [])
     = Inr (wrong_type_names (pool_items numbers letters symbols),
            wrong_element_names w
              (pool_items numbers letters symbols @ [(''blacklist'', blacklist)]))"
proof -
  from assms(1) have "blacklist = PyNone \<or> iterable blacklist"
    by (cases blacklist) (simp_all add: is_list_def iterable_def)
  with assms(2)
  have "\<forall>v \<in> snd ` set (pool_items numbers letters symbols @ [(''blacklist'', blacklist)]).
          v = PyNone \<or> iterable v"
    by (simp add: pool_items_def)
  from bc_check_closed [OF this, of w "[]" "[]"]
  show ?thesis by (simp add: pool_items_def wrong_type_names_def)
qed

lemma kg_check_iterable:
  "\<forall>v \<in> snd ` set items. iterable v \<Longrightarrow>
   kg_check w items (lf, cf)
     = Inr (lf @ wrong_type_names items, cf @ wrong_element_names w items)"
proof (induction items arbitrary: lf cf)
  case Nil
  show ?case by (simp add: wrong_type_names_def wrong_element_names_def)
next
  case (Cons item items)
  obtain name v where item: "item = (name, v)" by (cases item)
  from Cons.prems item have it: "iterable v" and rest: "\<forall>v \<in> snd ` set items. iterable v"
    by auto
  show ?case
    using Cons.IH [OF rest]
    by (simp add: item py_iter_iterable [OF it] wrong_type_names_def wrong_element_names_def Let_def)
qed

lemma kg_check_Inr_iterable:
  "kg_check w items acc = Inr r \<Longrightarrow> \<forall>v \<in> snd ` set items. iterable v"
proof (induction items arbitrary: acc)
  case Nil
  show ?case by simp
next
  case (Cons item items)
  obtain name v where item: "item = (name, v)" by (cases item)
  obtain lf cf where acc: "acc = (lf, cf)" by (cases acc)
  from Cons.prems obtain xs where it: "py_iter w v = Inr xs"
    by (cases "py_iter w v") (simp_all add: item acc)
  with Cons.prems obtain acc' where "kg_check w items acc' = Inr r"
    by (simp add: item acc Let_def)
  from Cons.IH [OF this] py_iter_Inr_iterable [OF it] show ?case
    by (simp add: item)
qed

section \<open>Properties of blacklistCharacters\<close>

subsection \<open>The filter\<close>

lemma permutes_set: "permutes order \<Longrightarrow> set (order k xs) = set xs"
  unfolding permutes_def by (metis set_mset_mset)

lemma permutes_distinct: "permutes order \<Longrightarrow> distinct (order k xs) = distinct xs"
  unfolding permutes_def by (metis distinct_count_atmost_1 set_mset_mset)

lemma permutes_ex_order: "permutes ex_order"
  by (simp add: permutes_def ex_order_def)

lemma set_py_set: "set (py_set xs) = set xs"
  by (simp add: py_set_def)

lemma set_set_union: "set (set_union a b) = set a \<union> set b"
  by (simp add: set_union_def)

lemma set_set_diff: "set (set_diff a b) = set a - set b"
  by (auto simp add: set_diff_def)

lemma distinct_set_diff_py_set: "distinct (set_diff (py_set a) b)"
  by (simp add: set_diff_def py_set_def)

lemma bc_filter_fst: "fst (bc_filter order w n l s b p) = Inr (PyList b)"
  by (simp add: bc_filter_def Let_def)

lemma bc_filter_cells:
  "cells (snd (bc_filter order w n l s b p)) =
     (cells w)(n := order 107 (set_diff (py_set (cells w n)) (py_set (cells w b))),
               l := order 108 (set_diff (py_set (cells w l)) (py_set (cells w b))),
               s := order 109 (set_diff (py_set (cells w s)) (py_set (cells w b))),
               b := order 110 (set_diff (py_set (cells w b))
                      (set_union (set_union (py_set (cells w n)) (py_set (cells w l)))
                         (py_set (cells w s)))))"
  by (simp add: bc_filter_def Let_def)

lemma bc_filter_nxt: "nxt (snd (bc_filter order w n l s b p)) = nxt w"
  by (simp add: bc_filter_def Let_def)

lemma bc_filter_blacklist_set:
  assumes "permutes order"
  shows "set (cells (snd (bc_filter order w n l s b p)) b)
     = set (cells w b) - (set (cells w n) \<union> set (cells w l) \<union> set (cells w s))"
  using assms by (simp add: bc_filter_cells permutes_set set_py_set set_set_union set_set_diff)

lemma bc_filter_pool_set:
  assumes "permutes order" "a = n \<or> a = l \<or> a = s"
  shows "set (cells (snd (bc_filter order w n l s b p)) a)
     = set (cells w a) - set (cells w b)"
  using assms by (auto simp add: bc_filter_cells permutes_set set_py_set set_set_union set_set_diff)

lemma bc_filter_distinct:
  assumes "permutes order" "a = n \<or> a = l \<or> a = s \<or> a = b"
  shows "distinct (cells (snd (bc_filter order w n l s b p)) a)"
  using assms by (auto simp add: bc_filter_cells permutes_distinct distinct_set_diff_py_set)

lemma bc_filter_frame:
  assumes "a \<noteq> n" "a \<noteq> l" "a \<noteq> s" "a \<noteq> b"
  shows "cells (snd (bc_filter order w n l s b p)) a = cells w a"
  using assms by (simp add: bc_filter_cells)

subsection \<open>Calls that reach the filter\<close>

lemma bc_check_valid:
  "pool_ok w n \<Longrightarrow> pool_ok w l \<Longrightarrow> pool_ok w s \<Longrightarrow> pool_ok w b \<Longrightarrow>
   bc_check w [(''numbers'', PyList n), (''letters'', PyList l), (''symbols'', PyList s),
               (''blacklist'', PyList b)] ([], []) = Inr ([], [])"
  by (simp add: pool_ok_def py_iter_def is_list_def)

lemma bc_valid_call:
  "pool_ok w n \<Longrightarrow> pool_ok w l \<Longrightarrow> pool_ok w s \<Longrightarrow> pool_ok w b \<Longrightarrow>
   blacklistCharacters order w (PyList n) (PyList l) (PyList s) (PyList b) (PyBool p)
     = bc_filter order w n l s b p"
  by (simp add: blacklistCharacters_def bc_check_valid is_bool_def is_list_def del: bc_check.simps)

lemma bc_check_lists:
  assumes "blacklist = PyNone \<or> is_list blacklist"
  shows "bc_check w [(''numbers'', PyList n), (''letters'', PyList l), (''symbols'', PyList s),
               (''blacklist'', blacklist)] ([], [])
     = Inr ([], wrong_element_names w
                  [(''numbers'', PyList n), (''letters'', PyList l), (''symbols'', PyList s),
                   (''blacklist'', blacklist)])"
proof -
  have "\<forall>v \<in> {PyList n, PyList l, PyList s}. v = PyNone \<or> iterable v"
    by (simp add: iterable_def)
  from bc_check_four [OF assms this, of w]
  show ?thesis by (simp add: pool_items_def wrong_type_names_def is_list_def)
qed

lemma wrong_element_names_four:
  "wrong_element_names w [(''numbers'', PyList n), (''letters'', PyList l),
       (''symbols'', PyList s), (''blacklist'', blacklist)] = []
     \<longleftrightarrow> pool_ok w n \<and> pool_ok w l \<and> pool_ok w s
         \<and> list_all single_char (elements w blacklist)"
  by (simp add: wrong_element_names_def elements_PyList pool_ok_def)

text \<open>
  A call with three list pools returns a value in two ways only: with a list for a
  blacklist, through the filter on that list; or in interactive mode with no blacklist,
  when the console yields one, through the filter on a new list object.
\<close>

lemma bc_success_cases:
  assumes "fst (blacklistCharacters order w (PyList n) (PyList l) (PyList s) blacklist
             printToConsole) = Inr v"
  shows "(\<exists>b p. blacklist = PyList b \<and> printToConsole = PyBool p
            \<and> blacklistCharacters order w (PyList n) (PyList l) (PyList s) blacklist
                  printToConsole = bc_filter order w n l s b p)
       \<or> (\<exists>chars inp out. blacklist = PyNone \<and> printToConsole = PyBool True
            \<and> bc_prompt (cells w n) (cells w l) (cells w s) (stdin w) (stdout w)
                = (Inr chars, inp, out)
            \<and> blacklistCharacters order w (PyList n) (PyList l) (PyList s) blacklist
                  printToConsole
                = bc_filter order
                    (w\<lparr>cells := (cells w)(nxt w := chars), nxt := Suc (nxt w),
                       stdin := inp, stdout := out\<rparr>) n l s (nxt w) True)"
proof -
  from assms obtain p where p: "printToConsole = PyBool p"
    by (cases printToConsole) (simp_all add: blacklistCharacters_def is_bool_def)
  from assms have bl: "blacklist = PyNone \<or> is_list blacklist"
    by (auto simp add: blacklistCharacters_def p is_bool_def split: if_splits)
  note chk = bc_check_lists [OF bl, of w n l s]
  from assms have ok: "wrong_element_names w [(''numbers'', PyList n), (''letters'', PyList l),
       (''symbols'', PyList s), (''blacklist'', blacklist)] = []"
    using bl
    by (auto simp add: blacklistCharacters_def p is_bool_def chk split: if_splits
          simp del: bc_check.simps)
  show ?thesis
  proof (cases blacklist)
    case (PyList b)
    note chk' = chk [unfolded PyList] and ok' = ok [unfolded PyList]
    have "blacklistCharacters order w (PyList n) (PyList l) (PyList s) (PyList b)
        (PyBool p) = bc_filter order w n l s b p"
      by (simp add: blacklistCharacters_def is_bool_def is_list_def chk' ok'
          del: bc_check.simps)
    with PyList p show ?thesis by simp
  next
    case PyNone
    note chk' = chk [unfolded PyNone] and ok' = ok [unfolded PyNone]
    note call = assms [unfolded PyNone p]
    from call have pt: "p"
      by (cases p) (simp_all add: blacklistCharacters_def is_bool_def is_list_def chk' ok'
          del: bc_check.simps)
    obtain r inp out where pr:
      "bc_prompt (cells w n) (cells w l) (cells w s) (stdin w) (stdout w) = (r, inp, out)"
      by (cases "bc_prompt (cells w n) (cells w l) (cells w s) (stdin w) (stdout w)")
    with call pt obtain chars where r: "r = Inr chars"
      by (cases r) (simp_all add: blacklistCharacters_def is_bool_def is_list_def chk' ok'
          del: bc_check.simps)
    have "blacklistCharacters order w (PyList n) (PyList l) (PyList s) PyNone (PyBool True)
        = bc_filter order
            (w\<lparr>cells := (cells w)(nxt w := chars), nxt := Suc (nxt w),
               stdin := inp, stdout := out\<rparr>) n l s (nxt w) True"
      using pr r
      by (simp add: blacklistCharacters_def is_bool_def is_list_def chk' ok'
          del: bc_check.simps)
    with PyNone p pt pr r show ?thesis by simp
  qed (use bl in \<open>simp_all add: is_list_def\<close>)
qed

subsection \<open>The effective blacklist\<close>

lemma ex_world_cells:
  "cells ex_world 10 = [PyStr ''0'', PyStr ''1'']"
  "cells ex_world 11 = [PyStr ''a'', PyStr ''b'']"
  "cells ex_world 12 = [PyStr ''!'']"
  "cells ex_world 13 = [PyStr ''0'', PyStr ''a'', PyStr ''9'']"
  by (simp_all add: ex_world_def)

lemma ex_world_pool_ok:
  "pool_ok ex_world 10" "pool_ok ex_world 11" "pool_ok ex_world 12" "pool_ok ex_world 13"
  by (simp_all add: pool_ok_def ex_world_cells single_char_def)

text \<open>
  Claim C1, as amended. For a call with four lists of one-character strings, the call
  returns the blacklist, whose elements afterwards are a subset of the elements it had
  before: exactly those that were in none of the three pools before the call. (The
  characters that were in a pool, and were removed from it, are the ones dropped.)
\<close>

theorem bc_returns_blacklist_minus_pools:
  assumes "permutes order"
    and "pool_ok w n" and "pool_ok w l" and "pool_ok w s" and "pool_ok w b"
  shows "fst (blacklistCharacters order w (PyList n) (PyList l) (PyList s) (PyList b) (PyBool p))
           = Inr (PyList b)
       \<and> set (cells (snd (blacklistCharacters order w (PyList n) (PyList l) (PyList s)
                            (PyList b) (PyBool p))) b)
           \<subseteq> set (cells w b)
       \<and> set (cells (snd (blacklistCharacters order w (PyList n) (PyList l) (PyList s)
                            (PyList b) (PyBool p))) b)
           = set (cells w b) - (set (cells w n) \<union> set (cells w l) \<union> set (cells w s))"
  using assms by (auto simp add: bc_valid_call bc_filter_fst bc_filter_blacklist_set)

theorem bc_returns_blacklist_minus_pools_witness:
  "permutes ex_order \<and> pool_ok ex_world 10 \<and> pool_ok ex_world 11 \<and> pool_ok ex_world 12
     \<and> pool_ok ex_world 13
     \<and> fst (blacklistCharacters ex_order ex_world (PyList 10) (PyList 11) (PyList 12)
              (PyList 13) (PyBool False)) = Inr (PyList 13)
     \<and> set (cells (snd (blacklistCharacters ex_order ex_world (PyList 10) (PyList 11)
                          (PyList 12) (PyList 13) (PyBool False))) 13)
         = {PyStr ''9''}"
proof -
  have "set (cells ex_world 13)
          - (set (cells ex_world 10) \<union> set (cells ex_world 11) \<union> set (cells ex_world 12))
        = {PyStr ''9''}"
    by (auto simp add: ex_world_cells)
  with bc_returns_blacklist_minus_pools [OF permutes_ex_order ex_world_pool_ok, of False]
  show ?thesis
    by (simp add: permutes_ex_order ex_world_pool_ok)
qed

text \<open>
  Claim C1 as the specification states it fails: on the example the blacklist returned
  holds \<open>9\<close>, which was in no pool, and not \<open>0\<close> and \<open>a\<close>, which were.
\<close>

theorem bc_effective_blacklist_counterexample:
  "set (cells (snd (blacklistCharacters ex_order ex_world (PyList 10) (PyList 11) (PyList 12)
                      (PyList 13) (PyBool False))) 13)
     \<noteq> set (cells ex_world 13)
         \<inter> (set (cells ex_world 10) \<union> set (cells ex_world 11) \<union> set (cells ex_world 12))"
proof -
  have "PyStr ''9'' \<notin> set (cells ex_world 13)
         \<inter> (set (cells ex_world 10) \<union> set (cells ex_world 11) \<union> set (cells ex_world 12))"
    by (simp add: ex_world_cells)
  moreover have "cells (snd (blacklistCharacters ex_order ex_world (PyList 10)
                     (PyList 11) (PyList 12) (PyList 13) (PyBool False))) 13 = [PyStr ''9'']"
    by code_simp
  then have "PyStr ''9'' \<in> set (cells (snd (blacklistCharacters ex_order ex_world (PyList 10)
                     (PyList 11) (PyList 12) (PyList 13) (PyBool False))) 13)"
    by simp
  ultimately show ?thesis by metis
qed

subsection \<open>The pools after the call, and the store\<close>

text \<open>
  Claim C5. After a call with four lists of one-character strings, each of the three
  pools holds no element of the blacklist as it was before the call, and its elements
  are, as a set, the elements it had before minus those of that blacklist. This holds
  also when some of the four arguments are one and the same list object.
\<close>

theorem bc_pools_lose_blacklist:
  assumes "permutes order"
    and "pool_ok w n" and "pool_ok w l" and "pool_ok w s" and "pool_ok w b"
    and "a = n \<or> a = l \<or> a = s"
  shows "set (cells (snd (blacklistCharacters order w (PyList n) (PyList l) (PyList s)
                            (PyList b) (PyBool p))) a) \<inter> set (cells w b) = {}
       \<and> set (cells (snd (blacklistCharacters order w (PyList n) (PyList l) (PyList s)
                            (PyList b) (PyBool p))) a)
           = set (cells w a) - set (cells w b)"
  using assms by (auto simp add: bc_valid_call bc_filter_pool_set)

theorem bc_pools_lose_blacklist_witness:
  "permutes ex_order \<and> pool_ok ex_world 10 \<and> pool_ok ex_world 11 \<and> pool_ok ex_world 12
     \<and> pool_ok ex_world 13 \<and> ((10::nat) = 10 \<or> (10::nat) = 11 \<or> (10::nat) = 12)
     \<and> set (cells (snd (blacklistCharacters ex_order ex_world (PyList 10) (PyList 11)
                          (PyList 12) (PyList 13) (PyBool False))) 10)
           \<inter> set (cells ex_world 13) = {}
     \<and> set (cells (snd (blacklistCharacters ex_order ex_world (PyList 10) (PyList 11)
                          (PyList 12) (PyList 13) (PyBool False))) 10)
         = {PyStr ''1''}"
proof -
  have a: "(10::nat) = 10 \<or> (10::nat) = 11 \<or> (10::nat) = 12" by simp
  have e: "set (cells ex_world 10) - set (cells ex_world 13) = {PyStr ''1''}"
    by (auto simp add: ex_world_cells)
  from bc_pools_lose_blacklist [OF permutes_ex_order ex_world_pool_ok a, of False]
  show ?thesis
    unfolding e using permutes_ex_order ex_world_pool_ok a by blast
qed

text \<open>
  A call of \<open>blacklistCharacters\<close> returns a value only when the three pools are lists,
  so the theorem on successful calls below is stated for \<open>PyList\<close> pools.
\<close>

lemma bc_returns_only_for_lists:
  assumes "fst (blacklistCharacters order w numbers letters symbols blacklist printToConsole)
             = Inr v"
  shows "is_list numbers \<and> is_list letters \<and> is_list symbols"
proof -
  from assms obtain lf cf where
    chk: "bc_check w (pool_items numbers letters symbols @ [(''blacklist'', blacklist)])
            ([], []) = Inr (lf, cf)"
    by (cases "bc_check w (pool_items numbers letters symbols @ [(''blacklist'', blacklist)])
                 ([], [])")
       (auto simp add: blacklistCharacters_def pool_items_def split: if_splits
          simp del: bc_check.simps)
  from assms chk have "lf = []"
    by (auto simp add: blacklistCharacters_def pool_items_def split: if_splits
          simp del: bc_check.simps)
  moreover from bc_check_closed [OF bc_check_Inr_iterable [OF chk], of w "[]" "[]"] chk
  have "lf = map fst (filter (\<lambda>(name, v). name \<noteq> ''blacklist'' \<and> \<not> is_list v)
                 (pool_items numbers letters symbols @ [(''blacklist'', blacklist)]))"
    by simp
  ultimately show ?thesis
    by (auto simp add: pool_items_def split: if_splits)
qed

lemma blacklist_used_addr:
  "blacklist_used w n l s (PyList b) = cells w b" "blacklist_addr w (PyList b) = b"
  "blacklist_addr w PyNone = nxt w"
  by (simp_all add: blacklist_used_def blacklist_addr_def)

text \<open>
  Claim C9. Every call that returns, with a blacklist supplied or with one asked for at
  the console, has updated the pools in place. The value returned is the blacklist
  object (the list supplied or the new list made from the console input) and no new
  list for a pool; under the address of each pool the store afterwards holds, without
  duplicates, exactly the elements the pool had minus those of the blacklist; at most
  that one new object has been made; and the list objects other than the pools and the
  blacklist are untouched. The addresses of the pools are addresses in use.
\<close>

theorem bc_updates_pools_in_place:
  assumes "permutes order"
    and "fst (blacklistCharacters order w (PyList n) (PyList l) (PyList s) blacklist
               printToConsole) = Inr v"
    and "n < nxt w" and "l < nxt w" and "s < nxt w"
  shows "v = PyList (blacklist_addr w blacklist)
       \<and> nxt (snd (blacklistCharacters order w (PyList n) (PyList l) (PyList s) blacklist
                     printToConsole))
           = (if is_list blacklist then nxt w else Suc (nxt w))
       \<and> (\<forall>a \<in> {n, l, s}.
             set (cells (snd (blacklistCharacters order w (PyList n) (PyList l) (PyList s)
                                blacklist printToConsole)) a)
               = set (cells w a) - set (blacklist_used w n l s blacklist)
           \<and> distinct (cells (snd (blacklistCharacters order w (PyList n) (PyList l)
                                     (PyList s) blacklist printToConsole)) a))
       \<and> (\<forall>a. a \<notin> {n, l, s, blacklist_addr w blacklist} \<longrightarrow>
             cells (snd (blacklistCharacters order w (PyList n) (PyList l) (PyList s)
                           blacklist printToConsole)) a = cells w a)"
proof -
  from bc_success_cases [OF assms(2)] show ?thesis
  proof (elim disjE exE conjE)
    fix b p
    assume bl: "blacklist = PyList b" and "printToConsole = PyBool p"
      and call: "blacklistCharacters order w (PyList n) (PyList l) (PyList s) blacklist
          printToConsole = bc_filter order w n l s b p"
    note call' = call [unfolded bl]
    from assms(2) have "v = PyList b"
      by (simp add: call bc_filter_fst)
    then show ?thesis
      using assms(1)
      by (simp add: bl call' blacklist_used_addr bc_filter_nxt bc_filter_pool_set
            bc_filter_distinct bc_filter_frame is_list_def)
  next
    fix chars inp out
    let ?w = "w\<lparr>cells := (cells w)(nxt w := chars), nxt := Suc (nxt w),
                 stdin := inp, stdout := out\<rparr>"
    assume bl: "blacklist = PyNone" and "printToConsole = PyBool True"
      and pr: "bc_prompt (cells w n) (cells w l) (cells w s) (stdin w) (stdout w)
          = (Inr chars, inp, out)"
      and call: "blacklistCharacters order w (PyList n) (PyList l) (PyList s) blacklist
          printToConsole = bc_filter order ?w n l s (nxt w) True"
    from assms(2) have v: "v = PyList (nxt w)"
      by (simp add: call bc_filter_fst)
    have used: "blacklist_used w n l s blacklist = chars"
      by (simp add: blacklist_used_def bl pr)
    have old: "cells ?w a = cells w a" if "a \<noteq> nxt w" for a
      using that by simp
    have new: "cells ?w (nxt w) = chars" by simp
    have pools: "set (cells (snd (bc_filter order ?w n l s (nxt w) True)) a)
          = set (cells w a) - set chars
        \<and> distinct (cells (snd (bc_filter order ?w n l s (nxt w) True)) a)"
      if "a = n \<or> a = l \<or> a = s" for a
    proof -
      from that assms(3-5) have "a \<noteq> nxt w" by auto
      then have same: "cells ?w a = cells w a" by simp
      from that have d: "a = n \<or> a = l \<or> a = s \<or> a = nxt w" by blast
      have "set (cells (snd (bc_filter order ?w n l s (nxt w) True)) a)
          = set (cells ?w a) - set (cells ?w (nxt w))"
        by (rule bc_filter_pool_set [OF assms(1) that])
      moreover have "distinct (cells (snd (bc_filter order ?w n l s (nxt w) True)) a)"
        by (rule bc_filter_distinct [OF assms(1) d])
      ultimately show ?thesis by (simp only: same new)
    qed
    have frame: "cells (snd (bc_filter order ?w n l s (nxt w) True)) a = cells w a"
      if "a \<noteq> n" "a \<noteq> l" "a \<noteq> s" "a \<noteq> nxt w" for a
      using bc_filter_frame [OF that, of order ?w True] old [OF that(4)] by simp
    note call' = call [unfolded bl]
    from v used [unfolded bl] pools frame show ?thesis
      by (simp add: bl call' blacklist_used_addr bc_filter_nxt is_list_def)
  qed
qed

theorem bc_updates_pools_in_place_witness:
  "permutes ex_order
   \<and> fst (blacklistCharacters ex_order ex_world (PyList 10) (PyList 11) (PyList 12)
            (PyList 13) (PyBool False)) = Inr (PyList 13)
   \<and> 10 < nxt ex_world \<and> 11 < nxt ex_world \<and> 12 < nxt ex_world
   \<and> nxt (snd (blacklistCharacters ex_order ex_world (PyList 10) (PyList 11) (PyList 12)
                 (PyList 13) (PyBool False))) = 14
   \<and> set (cells (snd (blacklistCharacters ex_order ex_world (PyList 10) (PyList 11)
                        (PyList 12) (PyList 13) (PyBool False))) 11) = {PyStr ''b''}
   \<and> distinct (cells (snd (blacklistCharacters ex_order ex_world (PyList 10) (PyList 11)
                             (PyList 12) (PyList 13) (PyBool False))) 11)
   \<and> cells (snd (blacklistCharacters ex_order ex_world (PyList 10) (PyList 11) (PyList 12)
                   (PyList 13) (PyBool False))) 20 = cells ex_world 20
   \<and> fst (blacklistCharacters ex_order ex_prompt (PyList 10) (PyList 11) (PyList 12)
            PyNone (PyBool True)) = Inr (PyList 13)
   \<and> 10 < nxt ex_prompt \<and> 11 < nxt ex_prompt \<and> 12 < nxt ex_prompt
   \<and> nxt (snd (blacklistCharacters ex_order ex_prompt (PyList 10) (PyList 11) (PyList 12)
                 PyNone (PyBool True))) = 14
   \<and> set (cells (snd (blacklistCharacters ex_order ex_prompt (PyList 10) (PyList 11)
                        (PyList 12) PyNone (PyBool True))) 10) = {PyStr ''1''}
   \<and> distinct (cells (snd (blacklistCharacters ex_order ex_prompt (PyList 10) (PyList 11)
                             (PyList 12) PyNone (PyBool True))) 10)
   \<and> cells (snd (blacklistCharacters ex_order ex_prompt (PyList 10) (PyList 11) (PyList 12)
                   PyNone (PyBool True))) 20 = cells ex_prompt 20"
proof -
  have h1: "fst (blacklistCharacters ex_order ex_world (PyList 10) (PyList 11) (PyList 12)
            (PyList 13) (PyBool False)) = Inr (PyList 13)"
    by code_simp
  have nx1: "nxt ex_world = 14" by (simp add: ex_world_def)
  have a1: "10 < nxt ex_world" "11 < nxt ex_world" "12 < nxt ex_world"
    by (simp_all add: nx1)
  note t1 = bc_updates_pools_in_place [OF permutes_ex_order h1 a1]
  have n1: "nxt (snd (blacklistCharacters ex_order ex_world (PyList 10) (PyList 11)
                 (PyList 12) (PyList 13) (PyBool False))) = 14"
    using t1 [THEN conjunct2, THEN conjunct1] by (simp add: is_list_def nx1)
  have m1: "(11::nat) \<in> {10, 11, 12}" by simp
  have e1: "set (cells ex_world 11) - set (blacklist_used ex_world 10 11 12 (PyList 13))
      = {PyStr ''b''}"
    by (auto simp add: blacklist_used_addr ex_world_cells)
  note p1 = t1 [THEN conjunct2, THEN conjunct2, THEN conjunct1, THEN bspec, OF m1,
      unfolded e1]
  have f1: "(20::nat) \<notin> {10, 11, 12, blacklist_addr ex_world (PyList 13)}"
    by (simp add: blacklist_used_addr)
  note q1 = t1 [THEN conjunct2, THEN conjunct2, THEN conjunct2, THEN spec, THEN mp, OF f1]
  have h2: "fst (blacklistCharacters ex_order ex_prompt (PyList 10) (PyList 11) (PyList 12)
            PyNone (PyBool True)) = Inr (PyList 13)"
    by code_simp
  have nx2: "nxt ex_prompt = 13" by (simp add: ex_prompt_def)
  have a2: "10 < nxt ex_prompt" "11 < nxt ex_prompt" "12 < nxt ex_prompt"
    by (simp_all add: nx2)
  note t2 = bc_updates_pools_in_place [OF permutes_ex_order h2 a2]
  have n2: "nxt (snd (blacklistCharacters ex_order ex_prompt (PyList 10) (PyList 11)
                 (PyList 12) PyNone (PyBool True))) = 14"
    using t2 [THEN conjunct2, THEN conjunct1] by (simp add: is_list_def nx2)
  have m2: "(10::nat) \<in> {10, 11, 12}" by simp
  have u2: "blacklist_used ex_prompt 10 11 12 PyNone = [PyStr ''0'', PyStr ''a'', PyStr ''9'']"
    by code_simp
  have c2: "cells ex_prompt 10 = [PyStr ''0'', PyStr ''1'']"
    by (simp add: ex_prompt_def)
  have e2: "set (cells ex_prompt 10) - set (blacklist_used ex_prompt 10 11 12 PyNone)
      = {PyStr ''1''}"
    by (auto simp add: u2 c2)
  note p2 = t2 [THEN conjunct2, THEN conjunct2, THEN conjunct1, THEN bspec, OF m2,
      unfolded e2]
  have f2: "(20::nat) \<notin> {10, 11, 12, blacklist_addr ex_prompt PyNone}"
    by (simp add: blacklist_used_addr nx2)
  note q2 = t2 [THEN conjunct2, THEN conjunct2, THEN conjunct2, THEN spec, THEN mp, OF f2]
  show ?thesis
    by (intro conjI)
      (rule permutes_ex_order h1 a1 n1 p1 [THEN conjunct1] p1 [THEN conjunct2] q1
         h2 a2 n2 p2 [THEN conjunct1] p2 [THEN conjunct2] q2)+
qed

text \<open>
  Claim C10. The value returned is the reference that was passed as the blacklist, and
  under its address the store afterwards holds the result (the slice assignment of
  line 110): the caller's blacklist and the value returned are one list object.
\<close>

theorem bc_returns_the_blacklist_object:
  assumes "pool_ok w n" and "pool_ok w l" and "pool_ok w s" and "pool_ok w b"
  shows "fst (blacklistCharacters order w (PyList n) (PyList l) (PyList s) (PyList b) (PyBool p))
           = Inr (PyList b)
       \<and> cells (snd (blacklistCharacters order w (PyList n) (PyList l) (PyList s) (PyList b)
                       (PyBool p))) b
           = order 110 (set_diff (py_set (cells w b))
                      (set_union (set_union (py_set (cells w n)) (py_set (cells w l)))
                         (py_set (cells w s))))"
  using assms by (simp add: bc_valid_call bc_filter_fst bc_filter_cells)

theorem bc_returns_the_blacklist_object_witness:
  "pool_ok ex_world 10 \<and> pool_ok ex_world 11 \<and> pool_ok ex_world 12 \<and> pool_ok ex_world 13
     \<and> fst (blacklistCharacters ex_order ex_world (PyList 10) (PyList 11) (PyList 12)
              (PyList 13) (PyBool True)) = Inr (PyList 13)
     \<and> cells ex_world 13 = [PyStr ''0'', PyStr ''a'', PyStr ''9'']
     \<and> cells (snd (blacklistCharacters ex_order ex_world (PyList 10) (PyList 11) (PyList 12)
                     (PyList 13) (PyBool True))) 13 = [PyStr ''9'']"
proof -
  have "ex_order 110 (set_diff (py_set (cells ex_world 13))
              (set_union (set_union (py_set (cells ex_world 10)) (py_set (cells ex_world 11)))
                 (py_set (cells ex_world 12)))) = [PyStr ''9'']"
    by (simp add: ex_world_cells py_set_def set_diff_def set_union_def ex_order_def)
  with bc_returns_the_blacklist_object [OF ex_world_pool_ok, of ex_order True]
  show ?thesis
    by (simp add: ex_world_pool_ok ex_world_cells)
qed

section \<open>Properties of keygen\<close>

subsection \<open>The checks, the loops and the sampling\<close>

lemma remove_empty_three:
  "remove_empty [a, b, c] [a, b, c] = filter (\<lambda>p. p \<noteq> []) [a, b, c]"
  by (cases "a = []"; cases "b = []"; cases "c = []"; simp)

lemma choice_nonempty:
  "seq \<noteq> [] \<Longrightarrow> choice tape pos seq = Inr (seq ! (tape pos mod length seq))"
  by (simp add: choice_def randbelow_def)

lemma generate_closed:
  assumes "characterSets \<noteq> []" and "\<forall>p \<in> set characterSets. p \<noteq> []"
  shows "generate tape characterSets rounds pos key
     = (Inr (key @ map (\<lambda>i. pick tape characterSets (pos + 2 * i)) [0..<rounds]),
        pos + 2 * rounds)"
proof (induction rounds arbitrary: pos key)
  case 0
  show ?case by simp
next
  case (Suc rounds)
  let ?p = "characterSets ! (tape pos mod length characterSets)"
  have "tape pos mod length characterSets < length characterSets"
    using assms(1) by simp
  then have "?p \<in> set characterSets" by simp
  with assms(2) have ne: "?p \<noteq> []" by blast
  have "map (\<lambda>i. pick tape characterSets (pos + 2 * i)) [0..<Suc rounds]
      = pick tape characterSets pos
        # map (\<lambda>i. pick tape characterSets (Suc (Suc pos) + 2 * i)) [0..<rounds]"
    by (simp add: map_upt_Suc del: upt_Suc)
  then show ?case
    using Suc.IH [of "Suc (Suc pos)" "key @ [pick tape characterSets pos]"]
    by (simp add: choice_nonempty [OF assms(1)] choice_nonempty [OF ne] pick_def Let_def
             del: upt_Suc)
qed

lemma single_char_eq: "single_char v \<Longrightarrow> v = PyStr [hd (the_str v)]"
  by (cases v) (auto simp add: single_char_def length_Suc_conv)

lemma concat_single_chars:
  "list_all single_char xs \<Longrightarrow> concat (map the_str xs) = map (\<lambda>v. hd (the_str v)) xs"
proof (induction xs)
  case Nil
  show ?case by simp
next
  case (Cons x xs)
  from Cons.prems have "single_char x" by simp
  then have "the_str x = [hd (the_str x)]"
    by (cases x) (auto simp add: single_char_def length_Suc_conv)
  with Cons show ?case by simp
qed

lemma pick_in_pools:
  assumes "characterSets \<noteq> []" and "\<forall>p \<in> set characterSets. p \<noteq> []"
  shows "\<exists>p \<in> set characterSets. pick tape characterSets pos \<in> set p"
proof -
  let ?p = "characterSets ! (tape pos mod length characterSets)"
  have "tape pos mod length characterSets < length characterSets"
    using assms(1) by simp
  then have mem: "?p \<in> set characterSets" by simp
  with assms(2) have "?p \<noteq> []" by blast
  then have "tape (Suc pos) mod length ?p < length ?p" by simp
  then have "?p ! (tape (Suc pos) mod length ?p) \<in> set ?p" by simp
  with mem show ?thesis by (auto simp add: pick_def Let_def)
qed


lemma kg_sample_ok:
  assumes ok: "list_all single_char numbers" "list_all single_char letters"
      "list_all single_char symbols"
    and ne: "\<not> (numbers = [] \<and> letters = [] \<and> symbols = [])"
  shows "kg_sample tape w numbers letters symbols keyLength p
      = (Inr (drawn tape (filter (\<lambda>p. p \<noteq> []) [numbers, letters, symbols]) (rng_pos w)
                (nat (int_val keyLength)), keyLength),
         if p then w\<lparr>rng_pos := rng_pos w + 2 * nat (int_val keyLength),
                     stdout := stdout w
                       @ [password_text (drawn tape (filter (\<lambda>p. p \<noteq> []) [numbers, letters, symbols])
                            (rng_pos w) (nat (int_val keyLength)))]\<rparr>
         else w\<lparr>rng_pos := rng_pos w + 2 * nat (int_val keyLength)\<rparr>)"
proof -
  let ?cs = "filter (\<lambda>p. p \<noteq> []) [numbers, letters, symbols]"
  let ?key = "map (\<lambda>i. pick tape ?cs (rng_pos w + 2 * i)) [0..<nat (int_val keyLength)]"
  have cs: "?cs \<noteq> []" using ne by auto
  have cs2: "\<forall>p \<in> set ?cs. p \<noteq> []" by auto
  have gen: "generate tape ?cs (nat (int_val keyLength)) (rng_pos w) []
       = (Inr ?key, rng_pos w + 2 * nat (int_val keyLength))"
    using generate_closed [OF cs cs2, of tape "nat (int_val keyLength)" "rng_pos w" "[]"]
    by simp
  have "\<forall>v \<in> set ?key. single_char v"
  proof
    fix v assume "v \<in> set ?key"
    then obtain i where v: "v = pick tape ?cs (rng_pos w + 2 * i)" by auto
    from pick_in_pools [OF cs cs2, of tape "rng_pos w + 2 * i"]
    obtain p where "p \<in> set ?cs" and vp: "v \<in> set p" using v by auto
    then have "p \<in> set [numbers, letters, symbols]"
      using filter_is_subset [of "\<lambda>p. p \<noteq> []" "[numbers, letters, symbols]"] by blast
    with vp have "v \<in> set numbers \<union> set letters \<union> set symbols" by auto
    with ok show "single_char v" by (auto simp add: list_all_iff)
  qed
  then have "list_all single_char ?key" by (simp add: list_all_iff)
  from concat_single_chars [OF this]
  have str: "concat (map the_str ?key)
      = drawn tape ?cs (rng_pos w) (nat (int_val keyLength))"
    by (simp add: comp_def drawn_def)
  have "kg_sample tape w numbers letters symbols keyLength p
      = (Inr (concat (map the_str ?key), keyLength),
         if p then w\<lparr>rng_pos := rng_pos w + 2 * nat (int_val keyLength),
                     stdout := stdout w @ [password_text (concat (map the_str ?key))]\<rparr>
         else w\<lparr>rng_pos := rng_pos w + 2 * nat (int_val keyLength)\<rparr>)"
    unfolding kg_sample_def remove_empty_three Let_def gen using ne by simp
  then show ?thesis unfolding str .
qed

lemma kg_sample_all_empty:
  "kg_sample tape w [] [] [] keyLength p = (Inl (ValueError all_empty_msg), w)"
  by (simp add: kg_sample_def)

lemma kg_prompt_result:
  "kg_prompt py_int keyLength inp out = (Inr keyLength', inp', out') \<Longrightarrow>
   keyLength = PyNone \<or> is_int keyLength \<Longrightarrow>
   is_int keyLength' \<and> 0 < int_val keyLength'"
proof (induction py_int keyLength inp out rule: kg_prompt.induct)
  case (1 py_int keyLength out)
  then show ?case by (auto split: if_splits)
next
  case (2 py_int keyLength line rest out)
  then show ?case
    by (auto split: if_splits option.splits simp add: is_int_def)
qed

lemma kg_length_result:
  assumes "kg_length py_int w keyLength p = (Inr keyLength', w')"
    and "keyLength = PyNone \<or> is_int keyLength"
  shows "is_int keyLength' \<and> 0 < int_val keyLength' \<and> cells w' = cells w
           \<and> rng_pos w' = rng_pos w"
proof (cases p)
  case True
  obtain r inp out where k: "kg_prompt py_int keyLength (stdin w) (stdout w) = (r, inp, out)"
    by (cases "kg_prompt py_int keyLength (stdin w) (stdout w)")
  with assms(1) True have "r = Inr keyLength'" and "w' = w\<lparr>stdin := inp, stdout := out\<rparr>"
    by (simp_all add: kg_length_def)
  with k kg_prompt_result [OF _ assms(2)] show ?thesis by auto
next
  case False
  with assms show ?thesis
    by (auto simp add: kg_length_def split: if_splits)
qed

lemma kg_length_noninteractive:
  "kg_length py_int w keyLength False =
     (if keyLength = PyNone then (Inl (TypeError keyLength_none_msg), w)
      else if int_val keyLength \<le> 0 then (Inl (ValueError keyLength_value_msg), w)
      else (Inr keyLength, w))"
  by (simp add: kg_length_def)

lemma kg_check_lists:
  "kg_check w [(''numbers'', PyList n), (''letters'', PyList l), (''symbols'', PyList s)] ([], [])
     = Inr ([], wrong_element_names w
                  [(''numbers'', PyList n), (''letters'', PyList l), (''symbols'', PyList s)])"
proof -
  have "\<forall>v \<in> snd ` set [(''numbers'', PyList n), (''letters'', PyList l), (''symbols'', PyList s)].
          iterable v"
    by (simp add: iterable_def)
  from kg_check_iterable [OF this, of w "[]" "[]"]
  show ?thesis by (simp add: wrong_type_names_def is_list_def)
qed

lemma wrong_element_names_lists:
  "wrong_element_names w [(''numbers'', PyList n), (''letters'', PyList l), (''symbols'', PyList s)] = []
     \<longleftrightarrow> pool_ok w n \<and> pool_ok w l \<and> pool_ok w s"
  by (simp add: wrong_element_names_def elements_def py_iter_def pool_ok_def)

lemma keygen_lists:
  assumes "keyLength = PyNone \<or> is_int keyLength"
  shows "keygen py_int tape w (PyList n) (PyList l) (PyList s) keyLength (PyBool p) =
     (if \<not> (pool_ok w n \<and> pool_ok w l \<and> pool_ok w s)
      then (Inl (ValueError (characterFails_msg (wrong_element_names w
              [(''numbers'', PyList n), (''letters'', PyList l), (''symbols'', PyList s)]))), w)
      else (case kg_length py_int w keyLength p of
              (Inl e, w') \<Rightarrow> (Inl e, w')
            | (Inr keyLength', w') \<Rightarrow>
                kg_sample tape w' (cells w' n) (cells w' l) (cells w' s) keyLength' p))"
  using assms wrong_element_names_lists [of w n l s]
  by (auto simp add: keygen_def kg_check_lists is_bool_def simp del: kg_check.simps
           split: prod.splits sum.splits)

lemma keygen_noninteractive_ok:
  assumes "pool_ok w n" and "pool_ok w l" and "pool_ok w s"
    and "\<not> (cells w n = [] \<and> cells w l = [] \<and> cells w s = [])"
    and "is_int keyLength" and "0 < int_val keyLength"
  shows "keygen py_int tape w (PyList n) (PyList l) (PyList s) keyLength (PyBool False)
     = (Inr (drawn tape (nonempty_pools w n l s) (rng_pos w) (nat (int_val keyLength)),
             keyLength),
        w\<lparr>rng_pos := rng_pos w + 2 * nat (int_val keyLength)\<rparr>)"
proof -
  from assms(5) have "keyLength \<noteq> PyNone" by (auto simp add: is_int_def)
  with assms show ?thesis
    by (simp add: keygen_lists kg_length_noninteractive kg_sample_ok pool_ok_def
          nonempty_pools_def)
qed

lemma keygen_success:
  assumes "keygen py_int tape w (PyList n) (PyList l) (PyList s) keyLength printToConsole
             = (Inr (key, keyLength'), w')"
  shows "pool_ok w n \<and> pool_ok w l \<and> pool_ok w s
       \<and> \<not> (cells w n = [] \<and> cells w l = [] \<and> cells w s = [])
       \<and> is_int keyLength' \<and> 0 < int_val keyLength'
       \<and> key = drawn tape (nonempty_pools w n l s) (rng_pos w) (nat (int_val keyLength'))
       \<and> rng_pos w' = rng_pos w + 2 * nat (int_val keyLength')
       \<and> cells w' = cells w"
proof -
  from assms obtain p where p: "printToConsole = PyBool p"
    by (cases printToConsole) (simp_all add: keygen_def is_bool_def)
  from assms have kl: "keyLength = PyNone \<or> is_int keyLength"
    by (auto simp add: keygen_def p is_bool_def split: if_splits)
  note call = assms [unfolded p keygen_lists [OF kl]]
  from call have ok: "pool_ok w n" "pool_ok w l" "pool_ok w s"
    by (auto split: if_splits)
  obtain r w1 where len: "kg_length py_int w keyLength p = (r, w1)"
    by (cases "kg_length py_int w keyLength p")
  with call ok obtain keyLength1 where r: "r = Inr keyLength1"
    by (cases r) auto
  from kg_length_result [OF len [unfolded r] kl]
  have w1: "is_int keyLength1" "0 < int_val keyLength1" "cells w1 = cells w"
    "rng_pos w1 = rng_pos w"
    by simp_all
  from call ok len r w1
  have sample: "kg_sample tape w1 (cells w n) (cells w l) (cells w s) keyLength1 p
      = (Inr (key, keyLength'), w')"
    by simp
  have ne: "\<not> (cells w n = [] \<and> cells w l = [] \<and> cells w s = [])"
  proof
    assume "cells w n = [] \<and> cells w l = [] \<and> cells w s = []"
    with sample show False by (simp add: kg_sample_all_empty)
  qed
  from sample [unfolded kg_sample_ok [OF ok [unfolded pool_ok_def] ne]] w1 ok ne
  show ?thesis
    by (auto simp add: nonempty_pools_def split: if_splits)
qed

text \<open>
  A call of \<open>keygen\<close> returns a key only when the three pools are lists, so the
  theorems on returned keys below are stated for \<open>PyList\<close> arguments.
\<close>

lemma keygen_returns_only_for_lists:
  assumes "fst (keygen py_int tape w numbers letters symbols keyLength printToConsole) = Inr r"
  shows "is_list numbers \<and> is_list letters \<and> is_list symbols"
proof -
  from assms obtain lf cf where
    chk: "kg_check w (pool_items numbers letters symbols) ([], []) = Inr (lf, cf)"
    by (cases "kg_check w (pool_items numbers letters symbols) ([], [])")
       (auto simp add: keygen_def pool_items_def split: if_splits simp del: kg_check.simps)
  from assms chk have "lf = []"
    by (auto simp add: keygen_def pool_items_def split: if_splits simp del: kg_check.simps)
  moreover from kg_check_iterable [OF kg_check_Inr_iterable [OF chk], of w "[]" "[]"] chk
  have "lf = wrong_type_names (pool_items numbers letters symbols)" by simp
  ultimately show ?thesis
    by (auto simp add: wrong_type_names_def pool_items_def split: if_splits)
qed

subsection \<open>Lengths and errors\<close>

lemma length_drawn: "length (drawn tape cs pos rounds) = rounds"
  by (simp add: drawn_def)

text \<open>
  Claim C2, as amended. For a non-interactive call with three lists of one-character
  strings, not all empty, and an integer length of at least 1, the call returns a string
  of exactly that many characters, and the length it returns with it is the one passed.
\<close>

theorem keygen_returns_key_of_length:
  assumes "pool_ok w n" and "pool_ok w l" and "pool_ok w s"
    and "\<not> (cells w n = [] \<and> cells w l = [] \<and> cells w s = [])"
    and "is_int keyLength" and "0 < int_val keyLength"
  shows "\<exists>key. fst (keygen py_int tape w (PyList n) (PyList l) (PyList s) keyLength
                      (PyBool False)) = Inr (key, keyLength)
             \<and> int (length key) = int_val keyLength"
  using assms(6) by (simp add: keygen_noninteractive_ok [OF assms] length_drawn)

theorem keygen_returns_key_of_length_witness:
  "pool_ok ex_digits 10 \<and> pool_ok ex_digits 11 \<and> pool_ok ex_digits 12
     \<and> \<not> (cells ex_digits 10 = [] \<and> cells ex_digits 11 = [] \<and> cells ex_digits 12 = [])
     \<and> is_int (PyInt 5) \<and> 0 < int_val (PyInt 5)
     \<and> (\<exists>key. fst (keygen ex_py_int ex_tape ex_digits (PyList 10) (PyList 11) (PyList 12)
                       (PyInt 5) (PyBool False)) = Inr (key, PyInt 5)
              \<and> int (length key) = int_val (PyInt 5))"
proof -
  have h: "pool_ok ex_digits 10" "pool_ok ex_digits 11" "pool_ok ex_digits 12"
    "\<not> (cells ex_digits 10 = [] \<and> cells ex_digits 11 = [] \<and> cells ex_digits 12 = [])"
    "is_int (PyInt 5)" "0 < int_val (PyInt 5)"
    by code_simp+
  from keygen_returns_key_of_length [OF h, of ex_py_int ex_tape] h
  show ?thesis by blast
qed

text \<open>
  Claim C2 as the specification states it fails at length 0: the call raises the
  \<^verbatim>\<open>ValueError\<close> of line 198 and returns no string.
\<close>

theorem keygen_length_zero_counterexample:
  "fst (keygen ex_py_int ex_tape ex_digits (PyList 10) (PyList 11) (PyList 12) (PyInt 0)
          (PyBool False)) = Inl (ValueError keyLength_value_msg)"
  by code_simp

text \<open>
  Claim C4, as amended. With the three pools empty lists, a non-interactive call fails,
  and with which error depends on the length: absent, the \<^verbatim>\<open>TypeError\<close> of line 195;
  not an integer, that of line 159; an integer below 1, the \<^verbatim>\<open>ValueError\<close> of line 198;
  only for an integer of at least 1 the \<^verbatim>\<open>ValueError\<close> of line 202, that all
  character sets are empty. The world is left as it was.
\<close>

theorem keygen_all_pools_empty:
  assumes "cells w n = []" and "cells w l = []" and "cells w s = []"
  shows "keygen py_int tape w (PyList n) (PyList l) (PyList s) keyLength (PyBool False) =
     (if keyLength = PyNone then (Inl (TypeError keyLength_none_msg), w)
      else if \<not> is_int keyLength then (Inl (TypeError keyLength_type_msg), w)
      else if int_val keyLength \<le> 0 then (Inl (ValueError keyLength_value_msg), w)
      else (Inl (ValueError all_empty_msg), w))"
proof (cases "keyLength = PyNone \<or> is_int keyLength")
  case True
  have "pool_ok w n" "pool_ok w l" "pool_ok w s"
    using assms by (simp_all add: pool_ok_def)
  then show ?thesis
    using True assms
    by (auto simp add: keygen_lists kg_length_noninteractive kg_sample_all_empty is_int_def)
next
  case False
  then show ?thesis by (simp add: keygen_def is_bool_def)
qed

theorem keygen_all_pools_empty_witness:
  "cells ex_empty 10 = [] \<and> cells ex_empty 11 = [] \<and> cells ex_empty 12 = []
     \<and> keygen ex_py_int ex_tape ex_empty (PyList 10) (PyList 11) (PyList 12) (PyInt 5)
          (PyBool False) = (Inl (ValueError all_empty_msg), ex_empty)
     \<and> keygen ex_py_int ex_tape ex_empty (PyList 10) (PyList 11) (PyList 12) (PyInt 0)
          (PyBool False) = (Inl (ValueError keyLength_value_msg), ex_empty)"
proof -
  have h: "cells ex_empty 10 = []" "cells ex_empty 11 = []" "cells ex_empty 12 = []"
    by (simp_all add: ex_empty_def)
  from keygen_all_pools_empty [OF h, of ex_py_int ex_tape "PyInt 5"]
    keygen_all_pools_empty [OF h, of ex_py_int ex_tape "PyInt 0"] h
  show ?thesis by (simp add: is_int_def)
qed

text \<open>
  Claim C4 as the specification states it fails for an absent length: the call raises
  the \<^verbatim>\<open>TypeError\<close> of line 195, not a \<^verbatim>\<open>ValueError\<close>.
\<close>

theorem keygen_all_pools_empty_counterexample:
  "fst (keygen ex_py_int ex_tape ex_empty (PyList 10) (PyList 11) (PyList 12) PyNone
          (PyBool False)) = Inl (TypeError keyLength_none_msg)"
  by code_simp

text \<open>
  Claim C8. With three pools that pass the checks, a non-interactive call with an
  integer length of at most 0 raises the \<^verbatim>\<open>ValueError\<close> of line 198, and one with
  no length the \<^verbatim>\<open>TypeError\<close> of line 195 (the specification's
  MissingRequiredArgument); the world is left as it was.
\<close>

theorem keygen_rejects_bad_length:
  assumes "pool_ok w n" and "pool_ok w l" and "pool_ok w s"
  shows "(is_int keyLength \<and> int_val keyLength \<le> 0 \<longrightarrow>
            keygen py_int tape w (PyList n) (PyList l) (PyList s) keyLength (PyBool False)
              = (Inl (ValueError keyLength_value_msg), w))
       \<and> keygen py_int tape w (PyList n) (PyList l) (PyList s) PyNone (PyBool False)
           = (Inl (TypeError keyLength_none_msg), w)"
  using assms
  by (auto simp add: keygen_lists kg_length_noninteractive is_int_def)

theorem keygen_rejects_bad_length_witness:
  "pool_ok ex_digits 10 \<and> pool_ok ex_digits 11 \<and> pool_ok ex_digits 12
     \<and> is_int (PyInt (- 2)) \<and> int_val (PyInt (- 2)) \<le> 0
     \<and> keygen ex_py_int ex_tape ex_digits (PyList 10) (PyList 11) (PyList 12) (PyInt (- 2))
          (PyBool False) = (Inl (ValueError keyLength_value_msg), ex_digits)
     \<and> keygen ex_py_int ex_tape ex_digits (PyList 10) (PyList 11) (PyList 12) PyNone
          (PyBool False) = (Inl (TypeError keyLength_none_msg), ex_digits)"
proof -
  have h: "pool_ok ex_digits 10" "pool_ok ex_digits 11" "pool_ok ex_digits 12"
    by code_simp+
  have k: "is_int (PyInt (- 2)) \<and> int_val (PyInt (- 2)) \<le> 0"
    by (simp add: is_int_def)
  from keygen_rejects_bad_length [OF h, of "PyInt (- 2)" ex_py_int ex_tape] h k
  show ?thesis by blast
qed

subsection \<open>Where the characters come from\<close>


lemma nonempty_pools_props:
  assumes "\<not> (cells w n = [] \<and> cells w l = [] \<and> cells w s = [])"
  shows "nonempty_pools w n l s \<noteq> []" and "\<forall>p \<in> set (nonempty_pools w n l s). p \<noteq> []"
    and "set (nonempty_pools w n l s) \<subseteq> {cells w n, cells w l, cells w s}"
  using assms by (auto simp add: nonempty_pools_def)

lemma pick_single_char:
  assumes "pool_ok w n" and "pool_ok w l" and "pool_ok w s"
    and ne: "\<not> (cells w n = [] \<and> cells w l = [] \<and> cells w s = [])"
  shows "pick tape (nonempty_pools w n l s) pos \<in> set (cells w n) \<union> set (cells w l) \<union> set (cells w s)
       \<and> PyStr [hd (the_str (pick tape (nonempty_pools w n l s) pos))]
           = pick tape (nonempty_pools w n l s) pos"
proof -
  from pick_in_pools [OF nonempty_pools_props(1,2) [OF ne], of tape pos]
  obtain p where "p \<in> set (nonempty_pools w n l s)"
    and vp: "pick tape (nonempty_pools w n l s) pos \<in> set p" by blast
  with nonempty_pools_props(3) [OF ne] have "p \<in> {cells w n, cells w l, cells w s}" by blast
  with vp have mem: "pick tape (nonempty_pools w n l s) pos
      \<in> set (cells w n) \<union> set (cells w l) \<union> set (cells w s)" by auto
  with assms(1-3) have "single_char (pick tape (nonempty_pools w n l s) pos)"
    by (auto simp add: pool_ok_def list_all_iff)
  from single_char_eq [OF this] mem show ?thesis by simp
qed

text \<open>
  If the numbers on the tape are spread evenly over a range that is a multiple of \<open>k\<close>,
  the draw below \<open>k\<close> hits each of the \<open>k\<close> outcomes equally often.
\<close>

lemma randbelow_uniform:
  assumes "j < k"
  shows "card {r. r < m * k \<and> randbelow (\<lambda>_. r) pos k = j} = m"
proof -
  have "{r. r < m * k \<and> r mod k = j} = (\<lambda>i. i * k + j) ` {..<m}"
  proof (intro set_eqI iffI)
    fix r assume "r \<in> {r. r < m * k \<and> r mod k = j}"
    then have r: "r < m * k" "r mod k = j" by auto
    have "r = (r div k) * k + j" using r(2) by (metis div_mult_mod_eq)
    moreover have "r div k < m" using r(1) assms
      by (simp add: less_mult_imp_div_less)
    ultimately show "r \<in> (\<lambda>i. i * k + j) ` {..<m}" by blast
  next
    fix r assume "r \<in> (\<lambda>i. i * k + j) ` {..<m}"
    then obtain i where i: "i < m" "r = i * k + j" by auto
    have "i * k + j < m * k"
    proof -
      have "i * k + j < i * k + k" using assms by simp
      also have "\<dots> = Suc i * k" by simp
      also have "\<dots> \<le> m * k" using i(1) by (intro mult_le_mono1) simp
      finally show ?thesis .
    qed
    with i assms show "r \<in> {r. r < m * k \<and> r mod k = j}" by simp
  qed
  moreover have "inj_on (\<lambda>i. i * k + j) {..<m}"
    using assms by (auto simp add: inj_on_def)
  ultimately show ?thesis by (simp add: card_image randbelow_def)
qed

text \<open>
  Claim C6. Whatever the tape, the console input and the mode, for every character of a
  key that \<open>keygen\<close> returns the one-character string of it is an element of one of the
  three pools; and where two of the pools are empty, it is an element of the third.
\<close>

theorem keygen_key_within_pools:
  assumes "fst (keygen py_int tape w (PyList n) (PyList l) (PyList s) keyLength printToConsole)
             = Inr (key, keyLength')"
  shows "(\<forall>c \<in> set key. PyStr [c] \<in> set (cells w n) \<union> set (cells w l) \<union> set (cells w s))
       \<and> (cells w l = [] \<and> cells w s = [] \<longrightarrow> (\<forall>c \<in> set key. PyStr [c] \<in> set (cells w n)))
       \<and> (cells w n = [] \<and> cells w s = [] \<longrightarrow> (\<forall>c \<in> set key. PyStr [c] \<in> set (cells w l)))
       \<and> (cells w n = [] \<and> cells w l = [] \<longrightarrow> (\<forall>c \<in> set key. PyStr [c] \<in> set (cells w s)))"
proof -
  obtain w' where "keygen py_int tape w (PyList n) (PyList l) (PyList s) keyLength printToConsole
      = (Inr (key, keyLength'), w')"
    using assms by (metis prod.collapse)
  from keygen_success [OF this]
  have ok: "pool_ok w n" "pool_ok w l" "pool_ok w s"
    and ne: "\<not> (cells w n = [] \<and> cells w l = [] \<and> cells w s = [])"
    and key: "key = drawn tape (nonempty_pools w n l s) (rng_pos w) (nat (int_val keyLength'))"
    by simp_all
  have "\<forall>c \<in> set key. PyStr [c] \<in> set (cells w n) \<union> set (cells w l) \<union> set (cells w s)"
  proof
    fix c assume "c \<in> set key"
    then obtain i where "c = hd (the_str (pick tape (nonempty_pools w n l s) (rng_pos w + 2 * i)))"
      by (auto simp add: key drawn_def)
    with pick_single_char [OF ok ne, of tape "rng_pos w + 2 * i"]
    show "PyStr [c] \<in> set (cells w n) \<union> set (cells w l) \<union> set (cells w s)" by simp
  qed
  then show ?thesis by auto
qed

theorem keygen_key_within_pools_witness:
  "fst (keygen ex_py_int ex_tape ex_console (PyList 10) (PyList 11) (PyList 12) PyNone
          (PyBool True)) = Inr (''0b!'', PyInt 3)
   \<and> PyStr ''0'' \<in> set (cells ex_console 10) \<union> set (cells ex_console 11)
                      \<union> set (cells ex_console 12)
   \<and> PyStr ''b'' \<in> set (cells ex_console 10) \<union> set (cells ex_console 11)
                      \<union> set (cells ex_console 12)
   \<and> PyStr ''!'' \<in> set (cells ex_console 10) \<union> set (cells ex_console 11)
                      \<union> set (cells ex_console 12)
   \<and> fst (keygen ex_py_int ex_tape ex_digits (PyList 10) (PyList 11) (PyList 12) (PyInt 5)
          (PyBool False)) = Inr (''01010'', PyInt 5)
   \<and> cells ex_digits 11 = [] \<and> cells ex_digits 12 = []
   \<and> PyStr ''0'' \<in> set (cells ex_digits 10)
   \<and> fst (keygen ex_py_int ex_tape ex_digits (PyList 11) (PyList 10) (PyList 12) (PyInt 5)
          (PyBool False)) = Inr (''01010'', PyInt 5)
   \<and> PyStr ''1'' \<in> set (cells ex_digits 10)
   \<and> fst (keygen ex_py_int ex_tape ex_digits (PyList 11) (PyList 12) (PyList 10) (PyInt 5)
          (PyBool False)) = Inr (''01010'', PyInt 5)
   \<and> PyStr ''1'' \<in> set (cells ex_digits 10)"
proof -
  have a: "fst (keygen ex_py_int ex_tape ex_console (PyList 10) (PyList 11) (PyList 12) PyNone
          (PyBool True)) = Inr (''0b!'', PyInt 3)"
    by code_simp
  have b: "fst (keygen ex_py_int ex_tape ex_digits (PyList 10) (PyList 11) (PyList 12) (PyInt 5)
          (PyBool False)) = Inr (''01010'', PyInt 5)"
    by code_simp
  have c: "fst (keygen ex_py_int ex_tape ex_digits (PyList 11) (PyList 10) (PyList 12) (PyInt 5)
          (PyBool False)) = Inr (''01010'', PyInt 5)"
    by code_simp
  have d: "fst (keygen ex_py_int ex_tape ex_digits (PyList 11) (PyList 12) (PyList 10) (PyInt 5)
          (PyBool False)) = Inr (''01010'', PyInt 5)"
    by code_simp
  have e: "cells ex_digits 11 = []" "cells ex_digits 12 = []"
    by (simp_all add: ex_digits_def)
  have m: "CHR ''0'' \<in> set ''0b!''" "CHR ''b'' \<in> set ''0b!''" "CHR ''!'' \<in> set ''0b!''"
    "CHR ''0'' \<in> set ''01010''" "CHR ''1'' \<in> set ''01010''"
    by simp_all
  note a' = keygen_key_within_pools [OF a, THEN conjunct1, THEN bspec]
  note b' = keygen_key_within_pools [OF b, THEN conjunct2, THEN conjunct1, THEN mp,
      OF conjI [OF e], THEN bspec]
  note c' = keygen_key_within_pools [OF c, THEN conjunct2, THEN conjunct2, THEN conjunct1,
      THEN mp, OF conjI [OF e], THEN bspec]
  note d' = keygen_key_within_pools [OF d, THEN conjunct2, THEN conjunct2, THEN conjunct2,
      THEN mp, OF conjI [OF e], THEN bspec]
  show ?thesis
    by (intro conjI)
      (rule a a' [OF m(1)] a' [OF m(2)] a' [OF m(3)] b e b' [OF m(4)] c c' [OF m(5)]
         d d' [OF m(5)])+
qed



text \<open>
  The two stages are not one draw over all characters: with two digits and one symbol,
  of the four pairs of tape numbers below 2, two draw the symbol, and each digit is
  drawn by one; a single draw over the three characters would treat them alike.
\<close>

lemma two_stage_not_flat:
  "rounds_drawing [[PyStr ''0'', PyStr ''1''], [PyStr ''!'']] (PyStr ''!'')
     [(0, 0), (0, 1), (1, 0), (1, 1)] = 2
   \<and> rounds_drawing [[PyStr ''0'', PyStr ''1''], [PyStr ''!'']] (PyStr ''0'')
     [(0, 0), (0, 1), (1, 0), (1, 1)] = 1
   \<and> rounds_drawing [[PyStr ''0'', PyStr ''1''], [PyStr ''!'']] (PyStr ''1'')
     [(0, 0), (0, 1), (1, 0), (1, 1)] = 1"
  by code_simp

section \<open>Validation in both functions\<close>

text \<open>
  Claim C3, as amended. Both functions check before they write to a list, draw a number
  or touch the console, and an error of the checks leaves the world as it was. A
  \<open>printToConsole\<close> that is not a boolean is reported alone, first; then a blacklist
  that is neither absent nor a list (\<open>blacklistCharacters\<close>), or a length that is
  neither absent nor an integer (\<open>keygen\<close>), is reported alone. Past these, and where
  every pool can be iterated (a list, a tuple or a string; for \<open>blacklistCharacters\<close>
  also \<^verbatim>\<open>None\<close>), the violations of all arguments are collected and reported by
  kind, one error per kind: if some pool is not a list, one \<^verbatim>\<open>TypeError\<close> names all
  the pools that are not lists, and no element violation; otherwise, if some argument
  holds an element that is not a one-character string, one \<^verbatim>\<open>ValueError\<close> names all
  such arguments.
\<close>

theorem validation_reports_per_kind:
  "(\<not> is_bool printToConsole \<longrightarrow>
      blacklistCharacters order w numbers letters symbols blacklist printToConsole
        = (Inl (TypeError printToConsole_msg), w)
    \<and> keygen py_int tape w numbers letters symbols keyLength printToConsole
        = (Inl (TypeError printToConsole_msg), w))
   \<and> (is_bool printToConsole \<and> blacklist \<noteq> PyNone \<and> \<not> is_list blacklist \<longrightarrow>
      blacklistCharacters order w numbers letters symbols blacklist printToConsole
        = (Inl (TypeError blacklist_type_msg), w))
   \<and> (is_bool printToConsole \<and> keyLength \<noteq> PyNone \<and> \<not> is_int keyLength \<longrightarrow>
      keygen py_int tape w numbers letters symbols keyLength printToConsole
        = (Inl (TypeError keyLength_type_msg), w))
   \<and> (is_bool printToConsole \<and> (blacklist = PyNone \<or> is_list blacklist)
        \<and> (\<forall>v \<in> {numbers, letters, symbols}. v = PyNone \<or> iterable v) \<longrightarrow>
      (wrong_type_names (pool_items numbers letters symbols) \<noteq> [] \<longrightarrow>
         blacklistCharacters order w numbers letters symbols blacklist printToConsole
           = (Inl (TypeError (listFails_msg
                (wrong_type_names (pool_items numbers letters symbols)))), w))
    \<and> (wrong_type_names (pool_items numbers letters symbols) = []
         \<and> wrong_element_names w
             (pool_items numbers letters symbols @ [(''blacklist'', blacklist)]) \<noteq> [] \<longrightarrow>
         blacklistCharacters order w numbers letters symbols blacklist printToConsole
           = (Inl (ValueError (characterFails_msg
                (wrong_element_names w
                   (pool_items numbers letters symbols @ [(''blacklist'', blacklist)])))),
              w)))
   \<and> (is_bool printToConsole \<and> (keyLength = PyNone \<or> is_int keyLength)
        \<and> (\<forall>v \<in> {numbers, letters, symbols}. iterable v) \<longrightarrow>
      (wrong_type_names (pool_items numbers letters symbols) \<noteq> [] \<longrightarrow>
         keygen py_int tape w numbers letters symbols keyLength printToConsole
           = (Inl (TypeError (listFails_msg
                (wrong_type_names (pool_items numbers letters symbols)))), w))
    \<and> (wrong_type_names (pool_items numbers letters symbols) = []
         \<and> wrong_element_names w (pool_items numbers letters symbols) \<noteq> [] \<longrightarrow>
         keygen py_int tape w numbers letters symbols keyLength printToConsole
           = (Inl (ValueError (characterFails_msg
                (wrong_element_names w (pool_items numbers letters symbols)))), w)))"
proof (intro conjI impI)
  assume "\<not> is_bool printToConsole"
  then show "blacklistCharacters order w numbers letters symbols blacklist printToConsole
      = (Inl (TypeError printToConsole_msg), w)"
    and "keygen py_int tape w numbers letters symbols keyLength printToConsole
      = (Inl (TypeError printToConsole_msg), w)"
    by (simp_all add: blacklistCharacters_def keygen_def)
next
  assume "is_bool printToConsole \<and> blacklist \<noteq> PyNone \<and> \<not> is_list blacklist"
  then show "blacklistCharacters order w numbers letters symbols blacklist printToConsole
      = (Inl (TypeError blacklist_type_msg), w)"
    by (simp add: blacklistCharacters_def)
next
  assume "is_bool printToConsole \<and> keyLength \<noteq> PyNone \<and> \<not> is_int keyLength"
  then show "keygen py_int tape w numbers letters symbols keyLength printToConsole
      = (Inl (TypeError keyLength_type_msg), w)"
    by (simp add: keygen_def)
next
  assume h: "is_bool printToConsole \<and> (blacklist = PyNone \<or> is_list blacklist)
      \<and> (\<forall>v \<in> {numbers, letters, symbols}. v = PyNone \<or> iterable v)"
  then have b: "is_bool printToConsole"
    and bl: "\<not> (blacklist \<noteq> PyNone \<and> \<not> is_list blacklist)" by blast+
  note chk = bc_check_four [OF h [THEN conjunct2, THEN conjunct1]
      h [THEN conjunct2, THEN conjunct2], of w, unfolded pool_items_def append.simps]
  {
    assume "wrong_type_names (pool_items numbers letters symbols) \<noteq> []"
    then show "blacklistCharacters order w numbers letters symbols blacklist printToConsole
        = (Inl (TypeError (listFails_msg
             (wrong_type_names (pool_items numbers letters symbols)))), w)"
      using b bl
      by (auto simp add: blacklistCharacters_def chk pool_items_def simp del: bc_check.simps)
  }
  {
    assume "wrong_type_names (pool_items numbers letters symbols) = []
        \<and> wrong_element_names w
            (pool_items numbers letters symbols @ [(''blacklist'', blacklist)]) \<noteq> []"
    then show "blacklistCharacters order w numbers letters symbols blacklist printToConsole
        = (Inl (ValueError (characterFails_msg
             (wrong_element_names w
                (pool_items numbers letters symbols @ [(''blacklist'', blacklist)])))), w)"
      using b bl
      by (auto simp add: blacklistCharacters_def chk pool_items_def simp del: bc_check.simps)
  }
next
  assume h: "is_bool printToConsole \<and> (keyLength = PyNone \<or> is_int keyLength)
      \<and> (\<forall>v \<in> {numbers, letters, symbols}. iterable v)"
  then have b: "is_bool printToConsole"
    and kl: "\<not> (keyLength \<noteq> PyNone \<and> \<not> is_int keyLength)" by blast+
  from h have "\<forall>v \<in> snd ` set (pool_items numbers letters symbols). iterable v"
    by (simp add: pool_items_def)
  note chk = kg_check_iterable [OF this, of w "[]" "[]", unfolded pool_items_def append.simps]
  {
    assume "wrong_type_names (pool_items numbers letters symbols) \<noteq> []"
    then show "keygen py_int tape w numbers letters symbols keyLength printToConsole
        = (Inl (TypeError (listFails_msg
             (wrong_type_names (pool_items numbers letters symbols)))), w)"
      using b kl
      by (auto simp add: keygen_def chk pool_items_def simp del: kg_check.simps)
  }
  {
    assume "wrong_type_names (pool_items numbers letters symbols) = []
        \<and> wrong_element_names w (pool_items numbers letters symbols) \<noteq> []"
    then show "keygen py_int tape w numbers letters symbols keyLength printToConsole
        = (Inl (ValueError (characterFails_msg
             (wrong_element_names w (pool_items numbers letters symbols)))), w)"
      using b kl
      by (auto simp add: keygen_def chk pool_items_def simp del: kg_check.simps)
  }
qed

theorem validation_reports_per_kind_witness:
  "\<not> is_bool (PyInt 1)
   \<and> blacklistCharacters ex_order ex_bad (PyList 10) (PyList 11) (PyList 12) (PyList 13)
         (PyInt 1)
       = (Inl (TypeError printToConsole_msg), ex_bad)
   \<and> keygen ex_py_int ex_tape ex_bad (PyList 10) (PyList 11) (PyList 12) (PyInt 5) (PyInt 1)
       = (Inl (TypeError printToConsole_msg), ex_bad)
   \<and> is_bool (PyBool False) \<and> PyTuple [] \<noteq> PyNone \<and> \<not> is_list (PyTuple [])
   \<and> blacklistCharacters ex_order ex_bad (PyList 10) (PyList 11) (PyList 12) (PyTuple [])
         (PyBool False)
       = (Inl (TypeError blacklist_type_msg), ex_bad)
   \<and> PyStr ''5'' \<noteq> PyNone \<and> \<not> is_int (PyStr ''5'')
   \<and> keygen ex_py_int ex_tape ex_bad (PyList 10) (PyList 11) (PyList 12) (PyStr ''5'')
         (PyBool False)
       = (Inl (TypeError keyLength_type_msg), ex_bad)
   \<and> wrong_type_names (pool_items (PyTuple [PyStr ''a'']) (PyList 11) PyNone)
       = [''numbers'', ''symbols'']
   \<and> blacklistCharacters ex_order ex_bad (PyTuple [PyStr ''a'']) (PyList 11) PyNone
         (PyList 13) (PyBool False)
       = (Inl (TypeError (listFails_msg [''numbers'', ''symbols''])), ex_bad)
   \<and> wrong_type_names (pool_items (PyList 10) (PyList 11) (PyList 12)) = []
   \<and> wrong_element_names ex_bad
         (pool_items (PyList 10) (PyList 11) (PyList 12) @ [(''blacklist'', PyList 13)])
       = [''letters'', ''blacklist'']
   \<and> blacklistCharacters ex_order ex_bad (PyList 10) (PyList 11) (PyList 12) (PyList 13)
         (PyBool False)
       = (Inl (ValueError (characterFails_msg [''letters'', ''blacklist''])), ex_bad)
   \<and> wrong_type_names (pool_items (PyTuple [PyStr ''a'']) (PyList 11) (PyStr ''!?''))
       = [''numbers'', ''symbols'']
   \<and> keygen ex_py_int ex_tape ex_bad (PyTuple [PyStr ''a'']) (PyList 11) (PyStr ''!?'')
         (PyInt 5) (PyBool False)
       = (Inl (TypeError (listFails_msg [''numbers'', ''symbols''])), ex_bad)
   \<and> wrong_type_names (pool_items (PyList 13) (PyList 11) (PyList 12)) = []
   \<and> wrong_element_names ex_bad (pool_items (PyList 13) (PyList 11) (PyList 12))
       = [''numbers'', ''letters'']
   \<and> keygen ex_py_int ex_tape ex_bad (PyList 13) (PyList 11) (PyList 12) (PyInt 5)
         (PyBool False)
       = (Inl (ValueError (characterFails_msg [''numbers'', ''letters''])), ex_bad)"
proof -
  have nb: "\<not> is_bool (PyInt 1)" by (simp add: is_bool_def)
  have b: "is_bool (PyBool False)" by (simp add: is_bool_def)
  have tb: "PyTuple [] \<noteq> PyNone" "\<not> is_list (PyTuple [])" by (simp_all add: is_list_def)
  have sk: "PyStr ''5'' \<noteq> PyNone" "\<not> is_int (PyStr ''5'')" by (simp_all add: is_int_def)
  have h1: "is_bool (PyBool False) \<and> (PyList 13 = PyNone \<or> is_list (PyList 13))
      \<and> (\<forall>v \<in> {PyTuple [PyStr ''a''], PyList 11, PyNone}. v = PyNone \<or> iterable v)"
    by (simp add: is_bool_def is_list_def iterable_def)
  have t1: "wrong_type_names (pool_items (PyTuple [PyStr ''a'']) (PyList 11) PyNone)
      = [''numbers'', ''symbols'']"
    by code_simp
  have h2: "is_bool (PyBool False) \<and> (PyList 13 = PyNone \<or> is_list (PyList 13))
      \<and> (\<forall>v \<in> {PyList 10, PyList 11, PyList 12}. v = PyNone \<or> iterable v)"
    by (simp add: is_bool_def is_list_def iterable_def)
  have t2: "wrong_type_names (pool_items (PyList 10) (PyList 11) (PyList 12)) = []"
    by code_simp
  have e2: "wrong_element_names ex_bad
         (pool_items (PyList 10) (PyList 11) (PyList 12) @ [(''blacklist'', PyList 13)])
       = [''letters'', ''blacklist'']"
    by code_simp
  have h3: "is_bool (PyBool False) \<and> (PyInt 5 = PyNone \<or> is_int (PyInt 5))
      \<and> (\<forall>v \<in> {PyTuple [PyStr ''a''], PyList 11, PyStr ''!?''}. iterable v)"
    by (simp add: is_bool_def is_int_def iterable_def)
  have t3: "wrong_type_names (pool_items (PyTuple [PyStr ''a'']) (PyList 11) (PyStr ''!?''))
      = [''numbers'', ''symbols'']"
    by code_simp
  have h4: "is_bool (PyBool False) \<and> (PyInt 5 = PyNone \<or> is_int (PyInt 5))
      \<and> (\<forall>v \<in> {PyList 13, PyList 11, PyList 12}. iterable v)"
    by (simp add: is_bool_def is_int_def iterable_def)
  have t4: "wrong_type_names (pool_items (PyList 13) (PyList 11) (PyList 12)) = []"
    by code_simp
  have e4: "wrong_element_names ex_bad (pool_items (PyList 13) (PyList 11) (PyList 12))
       = [''numbers'', ''letters'']"
    by code_simp
  note p0 = validation_reports_per_kind [where printToConsole = "PyInt 1" and order = ex_order
      and w = ex_bad and numbers = "PyList 10" and letters = "PyList 11"
      and symbols = "PyList 12" and blacklist = "PyList 13" and py_int = ex_py_int
      and tape = ex_tape and keyLength = "PyInt 5", THEN conjunct1, THEN mp, OF nb]
  note p1 = validation_reports_per_kind [where printToConsole = "PyBool False"
      and order = ex_order and w = ex_bad and numbers = "PyList 10" and letters = "PyList 11"
      and symbols = "PyList 12" and blacklist = "PyTuple []",
      THEN conjunct2, THEN conjunct1, THEN mp, OF conjI [OF b conjI [OF tb]]]
  note p2 = validation_reports_per_kind [where printToConsole = "PyBool False"
      and w = ex_bad and numbers = "PyList 10" and letters = "PyList 11"
      and symbols = "PyList 12" and py_int = ex_py_int and tape = ex_tape
      and keyLength = "PyStr ''5''",
      THEN conjunct2, THEN conjunct2, THEN conjunct1, THEN mp, OF conjI [OF b conjI [OF sk]]]
  have r1: "blacklistCharacters ex_order ex_bad (PyTuple [PyStr ''a'']) (PyList 11) PyNone
         (PyList 13) (PyBool False)
       = (Inl (TypeError (listFails_msg [''numbers'', ''symbols''])), ex_bad)"
    using validation_reports_per_kind [where order = ex_order and w = ex_bad,
        THEN conjunct2, THEN conjunct2, THEN conjunct2, THEN conjunct1, THEN mp, OF h1,
        THEN conjunct1]
    by (simp add: t1)
  have r2: "blacklistCharacters ex_order ex_bad (PyList 10) (PyList 11) (PyList 12) (PyList 13)
         (PyBool False)
       = (Inl (ValueError (characterFails_msg [''letters'', ''blacklist''])), ex_bad)"
    using validation_reports_per_kind [where order = ex_order and w = ex_bad,
        THEN conjunct2, THEN conjunct2, THEN conjunct2, THEN conjunct1, THEN mp, OF h2,
        THEN conjunct2]
    by (simp add: t2 e2)
  have r3: "keygen ex_py_int ex_tape ex_bad (PyTuple [PyStr ''a'']) (PyList 11) (PyStr ''!?'')
         (PyInt 5) (PyBool False)
       = (Inl (TypeError (listFails_msg [''numbers'', ''symbols''])), ex_bad)"
    using validation_reports_per_kind [where py_int = ex_py_int and tape = ex_tape
        and w = ex_bad,
        THEN conjunct2, THEN conjunct2, THEN conjunct2, THEN conjunct2, THEN mp, OF h3,
        THEN conjunct1]
    by (simp add: t3)
  have r4: "keygen ex_py_int ex_tape ex_bad (PyList 13) (PyList 11) (PyList 12) (PyInt 5)
         (PyBool False)
       = (Inl (ValueError (characterFails_msg [''numbers'', ''letters''])), ex_bad)"
    using validation_reports_per_kind [where py_int = ex_py_int and tape = ex_tape
        and w = ex_bad,
        THEN conjunct2, THEN conjunct2, THEN conjunct2, THEN conjunct2, THEN mp, OF h4,
        THEN conjunct2]
    by (simp add: t4 e4)
  show ?thesis
    by (intro conjI)
      (rule nb p0 [THEN conjunct1] p0 [THEN conjunct2] b tb p1 sk p2
         t1 r1 t2 e2 r2 t3 r3 t4 e4 r4)+
qed

text \<open>
  Claim C3 as the specification states it fails: with \<open>numbers\<close> a tuple and a
  two-character string in \<open>letters\<close> (and in the blacklist), each function raises the
  \<^verbatim>\<open>TypeError\<close> that names \<open>numbers\<close> alone; the arguments with a wrong element
  are not reported.
\<close>

theorem validation_first_kind_only_counterexample:
  "fst (keygen ex_py_int ex_tape ex_bad (PyTuple [PyStr ''a'']) (PyList 11) (PyList 12)
          (PyInt 5) (PyBool False))
     = Inl (TypeError (listFails_msg [''numbers'']))
   \<and> wrong_element_names ex_bad (pool_items (PyTuple [PyStr ''a'']) (PyList 11) (PyList 12))
       = [''letters'']
   \<and> fst (blacklistCharacters ex_order ex_bad (PyTuple [PyStr ''a'']) (PyList 11) (PyList 12)
            (PyList 13) (PyBool False))
       = Inl (TypeError (listFails_msg [''numbers'']))
   \<and> wrong_element_names ex_bad
         (pool_items (PyTuple [PyStr ''a'']) (PyList 11) (PyList 12)
            @ [(''blacklist'', PyList 13)])
       = [''letters'', ''blacklist'']"
  by code_simp

text \<open>
  A pool that cannot be iterated is outside what the theorem above covers. The element
  check of lines 69 and 169 then raises Python's own \<^verbatim>\<open>TypeError\<close> at the first such pool,
  which names no argument, whatever was collected before; \<open>blacklistCharacters\<close>
  guards \<^verbatim>\<open>None\<close> against this and \<open>keygen\<close> does not.
\<close>

lemma py_iter_not_iterable:
  "\<not> iterable v \<Longrightarrow>
   py_iter w v = Inl (TypeError (quote (type_name v) @ '' object is not iterable''))"
  by (cases v) (simp_all add: iterable_def py_iter_def)

lemma keygen_pool_not_iterable:
  assumes "is_bool printToConsole" and "keyLength = PyNone \<or> is_int keyLength"
    and "\<not> iterable numbers"
  shows "keygen py_int tape w numbers letters symbols keyLength printToConsole
     = (Inl (TypeError (quote (type_name numbers) @ '' object is not iterable'')), w)"
  using assms by (auto simp add: keygen_def py_iter_not_iterable Let_def)

lemma blacklistCharacters_pool_not_iterable:
  assumes "is_bool printToConsole" and "blacklist = PyNone \<or> is_list blacklist"
    and "numbers \<noteq> PyNone" and "\<not> iterable numbers"
  shows "blacklistCharacters order w numbers letters symbols blacklist printToConsole
     = (Inl (TypeError (quote (type_name numbers) @ '' object is not iterable'')), w)"
  using assms by (auto simp add: blacklistCharacters_def py_iter_not_iterable Let_def)

lemma keygen_none_pool_example:
  "fst (keygen ex_py_int ex_tape ex_bad PyNone (PyList 11) (PyList 12) (PyInt 5) (PyBool False))
     = Inl (TypeError (quote ''NoneType'' @ '' object is not iterable''))
   \<and> fst (blacklistCharacters ex_order ex_bad PyNone (PyList 11) (PyList 12) (PyList 13)
            (PyBool False))
       = Inl (TypeError (listFails_msg [''numbers'']))"
  by code_simp

end
